theory Spec2Isabelle
  imports Complex_Main "HOL-Library.Log_Nat"
begin

section \<open>The timespan metric of glean.js (core/metrics/types/timespan.ts)\<close>

text \<open>
  The development embeds \<^verbatim>\<open>src/glean/src/core/metrics/types/timespan.ts\<close>:
  the class \<^verbatim>\<open>TimespanMetric\<close> (validator and payload conversion) and the
  class \<^verbatim>\<open>TimespanMetricType\<close> (the tasks that \<^verbatim>\<open>start\<close>, \<^verbatim>\<open>stop\<close> and
  \<^verbatim>\<open>cancel\<close> hand to the dispatcher, and \<^verbatim>\<open>testGetValue\<close>).

  Conventions of the embedding.
  \<^item> A finite JavaScript number is the \<^typ>\<open>real\<close> it denotes. The arithmetic of
    \<^verbatim>\<open>payload()\<close> is that of IEEE 754 binary64: every product and quotient is rounded to
    the nearest double, ties to even, and overflows to an infinity. The time stamps of
    the clock and their difference \<^verbatim>\<open>stopTime - this.startTime\<close> are taken exact. \<^verbatim>\<open>NaN\<close>
    and the sign of zero are outside the model.
  \<^item> A JavaScript value is a \<open>json\<close> value (the type \<^verbatim>\<open>JSONValue\<close> of the source, plus
    \<^verbatim>\<open>undefined\<close> and \<^verbatim>\<open>null\<close>). An object is an association list; the first binding
    of a key is the property's value and a key counts once however often it occurs.
  \<^item> An exception is a value \<open>Inl e\<close> of a sum type.
  \<^item> The dispatcher runs the launched tasks one at a time, in the order of submission;
    a call is therefore modelled by the task it launches, applied to the state the
    previous task left. The time stamp read by \<^verbatim>\<open>getMonotonicNow()\<close> before the task is
    launched is an argument of the task.
\<close>

subsection \<open>Values\<close>

datatype json =
    JUndefined
  | JNull
  | JBoolean bool
  | JNumber real
  | JString string
  | JArray "json list"
  | JObject "(string \<times> json) list"

text \<open>The exceptions: a \<^verbatim>\<open>TypeError\<close> of an operator, and the \<^verbatim>\<open>Error\<close> of a constructor.\<close>

datatype exn = TypeError | Error

text \<open>
  The TypeScript string enum \<^verbatim>\<open>TimeUnit\<close> (imported from \<^verbatim>\<open>../time_unit.js\<close>).
\<close>

datatype TimeUnit = Nanosecond | Microsecond | Millisecond | Second | Minute | Hour | Day

text \<open>
  Modelled from the spec: the file \<^verbatim>\<open>time_unit.ts\<close> that declares the enum is not among
  the sources. Section 3 of the specification lists its seven members in this order; the
  string value of a member is taken to be its name in lower case.
\<close>

fun TimeUnit_value :: "TimeUnit \<Rightarrow> string" where
  "TimeUnit_value Nanosecond = ''nanosecond''"
| "TimeUnit_value Microsecond = ''microsecond''"
| "TimeUnit_value Millisecond = ''millisecond''"
| "TimeUnit_value Second = ''second''"
| "TimeUnit_value Minute = ''minute''"
| "TimeUnit_value Hour = ''hour''"
| "TimeUnit_value Day = ''day''"

text \<open>\<^verbatim>\<open>Object.values(TimeUnit)\<close>: the values of the members, in declaration order.\<close>

definition Object_values_TimeUnit :: "json list" where
  "Object_values_TimeUnit =
     map (\<lambda>u. JString (TimeUnit_value u))
       [Nanosecond, Microsecond, Millisecond, Second, Minute, Hour, Day]"

text \<open>
  Modelled from the spec: the type guard \<^verbatim>\<open>isObject\<close> of \<^verbatim>\<open>utils.ts\<close> is not among the
  sources. Section 4.4 of the specification speaks of ``a structured object''.
\<close>

fun isObject :: "json \<Rightarrow> bool" where
  "isObject (JObject fs) = True"
| "isObject _ = False"

text \<open>
  Modelled from the spec: the type guard \<^verbatim>\<open>isString\<close> of \<^verbatim>\<open>utils.ts\<close> is not among the
  sources. Section 4.4 of the specification speaks of ``a string''.
\<close>

fun isString :: "json \<Rightarrow> bool" where
  "isString (JString s) = True"
| "isString _ = False"

text \<open>
  Modelled from the spec: the type guard \<^verbatim>\<open>isNumber\<close> of \<^verbatim>\<open>utils.ts\<close> is not among the
  sources. Section 4.4 of the specification speaks of ``a number''.
\<close>

fun isNumber :: "json \<Rightarrow> bool" where
  "isNumber (JNumber n) = True"
| "isNumber _ = False"

text \<open>
  Modelled from the spec: the type guard \<^verbatim>\<open>isUndefined\<close> of \<^verbatim>\<open>utils.ts\<close> is not among the
  sources. It is applied to \<^verbatim>\<open>this.startTime\<close>, a time stamp or, in the words of section 3
  of the specification, absent.
\<close>

definition isUndefined :: "real option \<Rightarrow> bool" where
  "isUndefined v = (v = None)"

subsection \<open>The operators of JavaScript that the validator uses\<close>

text \<open>
  \<^verbatim>\<open>Object.keys(v).length\<close>. \<^verbatim>\<open>Object.keys\<close> raises a \<^verbatim>\<open>TypeError\<close> on \<^verbatim>\<open>undefined\<close> and
  \<^verbatim>\<open>null\<close>; an array has its indices as keys, a string its positions, a number or a
  boolean none.
\<close>

fun Object_keys_length :: "json \<Rightarrow> exn + nat" where
  "Object_keys_length JUndefined = Inl TypeError"
| "Object_keys_length JNull = Inl TypeError"
| "Object_keys_length (JBoolean b) = Inr 0"
| "Object_keys_length (JNumber n) = Inr 0"
| "Object_keys_length (JString s) = Inr (length s)"
| "Object_keys_length (JArray xs) = Inr (length xs)"
| "Object_keys_length (JObject fs) = Inr (length (remdups (map fst fs)))"

text \<open>
  \<^verbatim>\<open>k in v\<close>, for a key \<open>k\<close> that is no array index and no property of a built-in
  prototype (\<^verbatim>\<open>"timeUnit"\<close> and \<^verbatim>\<open>"timespan"\<close> are such keys). The operator raises a
  \<^verbatim>\<open>TypeError\<close> when its right operand is not an object.
\<close>

fun js_in :: "string \<Rightarrow> json \<Rightarrow> exn + bool" where
  "js_in k (JObject fs) = Inr (map_of fs k \<noteq> None)"
| "js_in k (JArray xs) = Inr False"
| "js_in k _ = Inl TypeError"

text \<open>
  The property read \<^verbatim>\<open>v.k\<close>, for the same keys: \<^verbatim>\<open>undefined\<close> when the property is
  missing, a \<^verbatim>\<open>TypeError\<close> when \<open>v\<close> is \<^verbatim>\<open>undefined\<close> or \<^verbatim>\<open>null\<close>.
\<close>

fun js_get :: "json \<Rightarrow> string \<Rightarrow> exn + json" where
  "js_get JUndefined k = Inl TypeError"
| "js_get JNull k = Inl TypeError"
| "js_get (JObject fs) k = Inr (case map_of fs k of None \<Rightarrow> JUndefined | Some x \<Rightarrow> x)"
| "js_get _ k = Inr JUndefined"

subsection \<open>TimespanMetric: the validator\<close>

text \<open>
  \<^verbatim>\<open>"timeUnit" in v && isString(v.timeUnit) && Object.values(TimeUnit).includes(v.timeUnit)\<close>;
  \<^verbatim>\<open>&&\<close> evaluates its right operand only when the left one holds.
\<close>

definition timeUnitVerification :: "json \<Rightarrow> exn + bool" where
  "timeUnitVerification v =
     (case js_in ''timeUnit'' v of
        Inl e \<Rightarrow> Inl e
      | Inr False \<Rightarrow> Inr False
      | Inr True \<Rightarrow>
          (case js_get v ''timeUnit'' of
             Inl e \<Rightarrow> Inl e
           | Inr x \<Rightarrow> Inr (isString x \<and> x \<in> set Object_values_TimeUnit)))"

text \<open>
  \<^verbatim>\<open>"timespan" in v && isNumber(v.timespan) && v.timespan >= 0\<close>; the comparison is
  reached for a number only.
\<close>

definition timespanVerification :: "json \<Rightarrow> exn + bool" where
  "timespanVerification v =
     (case js_in ''timespan'' v of
        Inl e \<Rightarrow> Inl e
      | Inr False \<Rightarrow> Inr False
      | Inr True \<Rightarrow>
          (case js_get v ''timespan'' of
             Inl e \<Rightarrow> Inl e
           | Inr x \<Rightarrow> Inr (isNumber x \<and> (case x of JNumber n \<Rightarrow> 0 \<le> n | _ \<Rightarrow> False))))"

definition validate :: "json \<Rightarrow> exn + bool" where
  "validate v =
     (if \<not> isObject v then Inr False
      else (case Object_keys_length v of
        Inl e \<Rightarrow> Inl e
      | Inr n \<Rightarrow>
          if n \<noteq> 2 then Inr False
          else (case timeUnitVerification v of
            Inl e \<Rightarrow> Inl e
          | Inr tu \<Rightarrow>
              (case timespanVerification v of
                 Inl e \<Rightarrow> Inl e
               | Inr ts \<Rightarrow> if \<not> tu \<or> \<not> ts then Inr False else Inr True))))"

text \<open>
  The validity of a stored value in the words of section 4.4 of the specification: a
  structured object with exactly two named fields, whose unit field is a string equal to
  one of the enumerated values and whose magnitude field is a number that is not
  negative. The fields are named as section 6 of the specification names them; the
  enumerated values are the seven strings of \<open>TimeUnit_value\<close>.
\<close>

definition TimeUnit_strings :: "string list" where
  "TimeUnit_strings =
     [''nanosecond'', ''microsecond'', ''millisecond'', ''second'', ''minute'', ''hour'', ''day'']"

fun unit_field_ok :: "json option \<Rightarrow> bool" where
  "unit_field_ok (Some (JString s)) = (s \<in> set TimeUnit_strings)"
| "unit_field_ok _ = False"

fun magnitude_field_ok :: "json option \<Rightarrow> bool" where
  "magnitude_field_ok (Some (JNumber n)) = (0 \<le> n)"
| "magnitude_field_ok _ = False"

fun valid_DurationRecord :: "json \<Rightarrow> bool" where
  "valid_DurationRecord (JObject fs) =
     (card (fst ` set fs) = 2 \<and> unit_field_ok (map_of fs ''timeUnit'')
      \<and> magnitude_field_ok (map_of fs ''timespan''))"
| "valid_DurationRecord _ = False"

subsection \<open>TimespanMetric: construction and payload\<close>

record TimespanMetric =
  inner :: json

text \<open>
  Modelled from the spec: the base class \<^verbatim>\<open>Metric\<close> (\<^verbatim>\<open>metric.ts\<close>), whose constructor
  \<^verbatim>\<open>super(v)\<close> runs, is not among the sources. By sections 4.3 and 9 of the specification
  constructing a metric validates the value and fails when the value is not valid; the
  comment at the \<^verbatim>\<open>try\<close> in \<^verbatim>\<open>stop\<close> says the same. A constructed instance keeps the
  value as \<^verbatim>\<open>_inner\<close>.
\<close>

definition new_TimespanMetric :: "json \<Rightarrow> exn + TimespanMetric" where
  "new_TimespanMetric v =
     (case validate v of
        Inl e \<Rightarrow> Inl e
      | Inr False \<Rightarrow> Inl Error
      | Inr True \<Rightarrow> Inr \<lparr>inner = v\<rparr>)"

subsection \<open>Numbers: IEEE 754 binary64\<close>

text \<open>
  A value of the type \<^verbatim>\<open>number\<close> that the arithmetic of \<^verbatim>\<open>payload()\<close> can produce: a finite
  double, given by the real it denotes, or an infinity.
\<close>

datatype number = Finite real | PosInfinity | NegInfinity

text \<open>The power \<open>2\<^sup>e\<close> for an integer exponent.\<close>

definition pow2 :: "int \<Rightarrow> real" where
  "pow2 e = (if 0 \<le> e then 2 ^ nat e else 1 / 2 ^ nat (- e))"

text \<open>
  The binary exponent of a positive real \<open>x\<close>: the \<open>k\<close> with \<open>2\<^sup>k \<le> x < 2\<^sup>k\<^sup>+\<^sup>1\<close>, computed
  from the bit length of an integer.
\<close>

definition ilog2 :: "real \<Rightarrow> int" where
  "ilog2 x = (if 1 \<le> x then bitlen \<lfloor>x\<rfloor> - 1 else - bitlen (\<lceil>1 / x\<rceil> - 1))"

text \<open>The nearest integer, a tie going to the even one.\<close>

definition round_half_even :: "real \<Rightarrow> int" where
  "round_half_even x =
     (let f = \<lfloor>x\<rfloor>; d = x - of_int f
      in if d < 1 / 2 then f else if 1 / 2 < d then f + 1 else if even f then f else f + 1)"

text \<open>
  The rounding of an exact result to binary64 (round to nearest, ties to even): the
  significand has 53 bits, the least exponent of a unit in the last place is \<open>-1074\<close>
  (subnormal numbers), and a result of magnitude \<open>2\<^sup>1\<^sup>0\<^sup>2\<^sup>4\<close> or more is an infinity.
\<close>

definition fl :: "real \<Rightarrow> number" where
  "fl x =
     (if x = 0 then Finite 0
      else
        let e = max (ilog2 \<bar>x\<bar>) (- 1022) - 52;
            y = of_int (round_half_even (x / pow2 e)) * pow2 e
        in if pow2 1024 \<le> y then PosInfinity
           else if y \<le> - pow2 1024 then NegInfinity
           else Finite y)"

text \<open>
  The product \<^verbatim>\<open>x * c\<close> and the quotient \<^verbatim>\<open>x / c\<close> of a number and a positive finite
  constant \<open>c\<close> (\<^verbatim>\<open>10**6\<close>, \<^verbatim>\<open>10**3\<close>, \<^verbatim>\<open>1000\<close>, \<^verbatim>\<open>60\<close> and \<^verbatim>\<open>24\<close> are such, and exact).
\<close>

fun js_times :: "number \<Rightarrow> real \<Rightarrow> number" where
  "js_times (Finite x) c = fl (x * c)"
| "js_times PosInfinity c = PosInfinity"
| "js_times NegInfinity c = NegInfinity"

fun js_divide :: "number \<Rightarrow> real \<Rightarrow> number" where
  "js_divide (Finite x) c = fl (x / c)"
| "js_divide PosInfinity c = PosInfinity"
| "js_divide NegInfinity c = NegInfinity"

text \<open>
  \<^verbatim>\<open>Math.round\<close>: the nearest integer, a tie going to the larger one. The result for a
  double is a double again: below \<open>2\<^sup>5\<^sup>2\<close> in magnitude it is an integer of at most 53
  bits, and from there on a double is an integer itself.
\<close>

fun Math_round :: "number \<Rightarrow> number" where
  "Math_round (Finite x) = Finite (of_int \<lfloor>x + 1 / 2\<rfloor>)"
| "Math_round PosInfinity = PosInfinity"
| "Math_round NegInfinity = NegInfinity"

text \<open>
  \<^verbatim>\<open>payload()\<close>. The \<^verbatim>\<open>switch\<close> compares \<^verbatim>\<open>this._inner.timeUnit\<close> with the value of each
  member in turn and the method returns \<^verbatim>\<open>undefined\<close> (\<open>None\<close>) when none is equal. An
  instance holds a validated value, so \<^verbatim>\<open>this._inner.timespan\<close> is a number; the
  arithmetic of JavaScript on other values is not modelled (\<open>None\<close>).
\<close>

definition payload :: "TimespanMetric \<Rightarrow> number option" where
  "payload this =
     (case (js_get (inner this) ''timeUnit'', js_get (inner this) ''timespan'') of
        (Inr (JString u), Inr (JNumber timespan)) \<Rightarrow>
          if u = TimeUnit_value Nanosecond then Some (js_times (Finite timespan) (10 ^ 6))
          else if u = TimeUnit_value Microsecond then Some (js_times (Finite timespan) (10 ^ 3))
          else if u = TimeUnit_value Millisecond then Some (Finite timespan)
          else if u = TimeUnit_value Second then
            Some (Math_round (js_divide (Finite timespan) 1000))
          else if u = TimeUnit_value Minute then
            Some (Math_round (js_divide (js_divide (Finite timespan) 1000) 60))
          else if u = TimeUnit_value Hour then
            Some (Math_round (js_divide (js_divide (js_divide (Finite timespan) 1000) 60) 60))
          else if u = TimeUnit_value Day then
            Some (Math_round
                    (js_divide (js_divide (js_divide (js_divide (Finite timespan) 1000) 60) 60)
                       24))
          else None
      | _ \<Rightarrow> None)"

text \<open>
  The conversion table of section 4.5 of the specification, in its words and in exact
  arithmetic.
\<close>

fun conversion_table :: "TimeUnit \<Rightarrow> real \<Rightarrow> real" where
  "conversion_table Nanosecond durationMillis = durationMillis * 1000000"
| "conversion_table Microsecond durationMillis = durationMillis * 1000"
| "conversion_table Millisecond durationMillis = durationMillis"
| "conversion_table Second durationMillis = of_int (round (durationMillis / 1000))"
| "conversion_table Minute durationMillis = of_int (round (durationMillis / 60000))"
| "conversion_table Hour durationMillis = of_int (round (durationMillis / 3600000))"
| "conversion_table Day durationMillis = of_int (round (durationMillis / 86400000))"

text \<open>
  The same table with the arithmetic of the code: every product and every quotient,
  in the order the code takes them, is rounded to binary64.
\<close>

fun double_table :: "TimeUnit \<Rightarrow> real \<Rightarrow> number" where
  "double_table Nanosecond ms = fl (ms * 1000000)"
| "double_table Microsecond ms = fl (ms * 1000)"
| "double_table Millisecond ms = Finite ms"
| "double_table Second ms = Math_round (fl (ms / 1000))"
| "double_table Minute ms = Math_round (js_divide (fl (ms / 1000)) 60)"
| "double_table Hour ms = Math_round (js_divide (js_divide (fl (ms / 1000)) 60) 60)"
| "double_table Day ms =
     Math_round (js_divide (js_divide (js_divide (fl (ms / 1000)) 60) 60) 24)"

subsection \<open>TimespanMetricType: the state\<close>

text \<open>
  The fields of a \<^verbatim>\<open>TimespanMetricType\<close>: \<^verbatim>\<open>timeUnit\<close> and \<^verbatim>\<open>startTime\<close> of the class
  itself, \<^verbatim>\<open>disabled\<close> and \<^verbatim>\<open>sendInPings\<close> of its base class \<^verbatim>\<open>MetricType\<close>. An absent
  \<^verbatim>\<open>startTime\<close> (\<^verbatim>\<open>undefined\<close>) is \<open>None\<close>. The field \<^verbatim>\<open>timeUnit\<close> has its declared type
  \<^verbatim>\<open>TimeUnit\<close>: the constructor casts its string argument to it without a check, and a
  metric built with a string outside the enumeration is outside the model.
\<close>

record TimespanMetricType =
  disabled :: bool
  sendInPings :: "string list"
  timeUnit :: TimeUnit
  startTime :: "real option"

text \<open>
  What a task can read and write: the metric (\<^verbatim>\<open>this\<close>), \<^verbatim>\<open>Context.uploadEnabled\<close>, the
  values that \<^verbatim>\<open>Context.metricsDatabase\<close> stores for this metric under each ping, and
  the messages written with \<^verbatim>\<open>console.error\<close>.
\<close>

record state =
  metric :: TimespanMetricType
  uploadEnabled :: bool
  metricsDatabase :: "string \<rightharpoonup> json"
  console :: "string list"

text \<open>
  Modelled from the spec: \<^verbatim>\<open>MetricType.shouldRecord\<close> (\<^verbatim>\<open>metrics/index.ts\<close>) is not among
  the sources. By sections 3, 4.2 and the glossary of the specification a metric records
  when collection is enabled and the metric itself is not disabled.
\<close>

definition shouldRecord :: "TimespanMetricType \<Rightarrow> bool \<Rightarrow> bool" where
  "shouldRecord this uploadEnabled' = (uploadEnabled' \<and> \<not> disabled this)"

definition console_error :: "string \<Rightarrow> state \<Rightarrow> state" where
  "console_error msg w = w\<lparr>console := console w @ [msg]\<rparr>"

definition set_startTime :: "real option \<Rightarrow> state \<Rightarrow> state" where
  "set_startTime t w = w\<lparr>metric := (metric w)\<lparr>startTime := t\<rparr>\<rparr>"

subsection \<open>start and cancel\<close>

text \<open>The task that \<^verbatim>\<open>start()\<close> launches; \<open>startTime'\<close> is the time stamp it captured.\<close>

definition start :: "real \<Rightarrow> state \<Rightarrow> state" where
  "start startTime' w =
     (if \<not> shouldRecord (metric w) (uploadEnabled w) then w
      else if \<not> isUndefined (startTime (metric w)) then
        console_error ''Timespan already started.'' w
      else set_startTime (Some startTime') w)"

text \<open>The task that \<^verbatim>\<open>cancel()\<close> launches.\<close>

definition cancel :: "state \<Rightarrow> state" where
  "cancel w = set_startTime None w"

subsection \<open>stop\<close>

text \<open>
  The variables that the function handed to the storage transform closes over: the
  state that the task works on and the local variable \<^verbatim>\<open>reportValueExists\<close> of the task.
\<close>

record stop_task =
  global :: state
  reportValueExists :: bool

text \<open>
  \<^verbatim>\<open>transformFn\<close>, for the \<open>elapsed\<close> it was built with: the function from the stored value
  to the metric to store. \<^verbatim>\<open>catch\<close> takes any exception of the first construction;
  \<open>timespan_object\<close> is the object literal \<^verbatim>\<open>{timespan: elapsed, timeUnit: this.timeUnit}\<close>
  of the second.
\<close>

definition timespan_object :: "real \<Rightarrow> TimeUnit \<Rightarrow> json" where
  "timespan_object elapsed unit =
     JObject [(''timespan'', JNumber elapsed), (''timeUnit'', JString (TimeUnit_value unit))]"

definition transformFn ::
  "real \<Rightarrow> json \<Rightarrow> stop_task \<Rightarrow> (exn + TimespanMetric) \<times> stop_task" where
  "transformFn elapsed old env =
     (case new_TimespanMetric old of
        Inr metric' \<Rightarrow> (Inr metric', env\<lparr>reportValueExists := True\<rparr>)
      | Inl e \<Rightarrow>
          (new_TimespanMetric (timespan_object elapsed (timeUnit (metric (global env)))), env))"

text \<open>
  Modelled from the spec: the storage \<^verbatim>\<open>Context.metricsDatabase\<close> is not among the
  sources. By section 6 of the specification a fetch gives the current raw value of the
  metric for a destination, or absent (\<^verbatim>\<open>undefined\<close>).
\<close>

definition fetch :: "(string \<rightharpoonup> json) \<Rightarrow> string \<Rightarrow> json" where
  "fetch db ping = (case db ping of None \<Rightarrow> JUndefined | Some v \<Rightarrow> v)"

text \<open>
  Modelled from the spec: the storage is not among the sources. By section 6 of the
  specification the new value becomes the stored value of the metric for the
  destination.
\<close>

definition persist :: "string \<Rightarrow> json \<Rightarrow> stop_task \<Rightarrow> stop_task" where
  "persist ping v env =
     env\<lparr>global := (global env)\<lparr>metricsDatabase := (metricsDatabase (global env))(ping \<mapsto> v)\<rparr>\<rparr>"

text \<open>
  Modelled from the spec: \<^verbatim>\<open>Context.metricsDatabase.transform\<close> is not among the sources.
  By section 6 of the specification it fetches the current raw value of the metric for
  a destination (or absent), applies the merge function and persists the new value.
  The call in \<^verbatim>\<open>stop\<close> names the metric only: each destination of the metric
  (\<^verbatim>\<open>sendInPings\<close>) is transformed, in order. What is persisted of the returned metric is
  its value \<^verbatim>\<open>_inner\<close>. An exception of the merge function leaves the transform.
\<close>

fun transform ::
  "(json \<Rightarrow> stop_task \<Rightarrow> (exn + TimespanMetric) \<times> stop_task) \<Rightarrow> string list \<Rightarrow> stop_task
    \<Rightarrow> exn + stop_task" where
  "transform mergeFn [] env = Inr env"
| "transform mergeFn (ping # pings) env =
     (case mergeFn (fetch (metricsDatabase (global env)) ping) env of
        (Inl e, env') \<Rightarrow> Inl e
      | (Inr m, env') \<Rightarrow> transform mergeFn pings (persist ping (inner m) env'))"

text \<open>
  Modelled from the spec: \<^verbatim>\<open>Context.metricsDatabase.getMetric\<close> and the dispatcher's
  \<^verbatim>\<open>testLaunch\<close> are not among the sources. By section 6 of the specification the first is
  a read-only fetch of the raw value, or absent; by section 5 the second runs the task
  and lets the caller wait for it. Nothing is stored under an \<^verbatim>\<open>undefined\<close> ping.
\<close>

definition getMetric :: "string option \<Rightarrow> state \<Rightarrow> json \<times> state" where
  "getMetric ping w =
     (case ping of None \<Rightarrow> (JUndefined, w) | Some p \<Rightarrow> (fetch (metricsDatabase w) p, w))"

text \<open>
  The task that \<^verbatim>\<open>stop()\<close> launches; \<open>stopTime\<close> is the time stamp it captured. The
  test \<^verbatim>\<open>isUndefined(this.startTime)\<close> is the case \<open>None\<close>. An exception that leaves the
  task is the result \<open>Inl e\<close>.
\<close>

definition stop :: "real \<Rightarrow> state \<Rightarrow> exn + state" where
  "stop stopTime w =
     (if \<not> shouldRecord (metric w) (uploadEnabled w) then Inr (set_startTime None w)
      else
        (case startTime (metric w) of
           None \<Rightarrow> Inr (console_error ''Timespan not running.'' w)
         | Some startTime' \<Rightarrow>
             let elapsed = stopTime - startTime';
                 w1 = set_startTime None w
             in
               if elapsed < 0 then Inr (console_error ''Timespan was negative.'' w1)
               else
                 (case transform (transformFn elapsed) (sendInPings (metric w1))
                         \<lparr>global = w1, reportValueExists = False\<rparr> of
                    Inl e \<Rightarrow> Inl e
                  | Inr env \<Rightarrow>
                      if reportValueExists env then
                        Inr (console_error
                               ''Timespan value already recorded. New value discarded.''
                               (global env))
                      else Inr (global env))))"

subsection \<open>testGetValue\<close>

text \<open>The truth value that \<^verbatim>\<open>if (value)\<close> gives a value.\<close>

fun truthy :: "json \<Rightarrow> bool" where
  "truthy JUndefined = False"
| "truthy JNull = False"
| "truthy (JBoolean b) = b"
| "truthy (JNumber n) = (n \<noteq> 0)"
| "truthy (JString s) = (s \<noteq> [])"
| "truthy (JArray xs) = True"
| "truthy (JObject fs) = True"

text \<open>
  \<^verbatim>\<open>testGetValue(ping)\<close>; \<open>None\<close> for the argument is the call without argument, whose
  ping is \<^verbatim>\<open>this.sendInPings[0]\<close> (\<^verbatim>\<open>undefined\<close> when the list is empty). The result is the
  returned number, \<open>None\<close> for \<^verbatim>\<open>undefined\<close>, with the state the call leaves.
\<close>

definition testGetValue :: "string option \<Rightarrow> state \<Rightarrow> (exn + number option) \<times> state" where
  "testGetValue ping w =
     (let ping' = (case ping of
                     Some p \<Rightarrow> Some p
                   | None \<Rightarrow> (case sendInPings (metric w) of [] \<Rightarrow> None | p # ps \<Rightarrow> Some p));
          (value', w') = getMetric ping' w
      in
        if truthy value' then
          (case new_TimespanMetric value' of
             Inl e \<Rightarrow> (Inl e, w')
           | Inr m \<Rightarrow> (Inr (payload m), w'))
        else (Inr None, w'))"

subsection \<open>Sequences of calls\<close>

text \<open>
  The calls a client makes on the metric, each with the time stamp it captures, and the
  assignment of \<^verbatim>\<open>Context.uploadEnabled\<close>. \<open>run\<close> executes the tasks of a sequence of
  calls in the order of submission; an exception of a task ends the run.
\<close>

datatype call = Start real | Stop real | Cancel | SetUploadEnabled bool

fun run :: "call list \<Rightarrow> state \<Rightarrow> exn + state" where
  "run [] w = Inr w"
| "run (Start t # cs) w = run cs (start t w)"
| "run (Stop t # cs) w = (case stop t w of Inl e \<Rightarrow> Inl e | Inr w' \<Rightarrow> run cs w')"
| "run (Cancel # cs) w = run cs (cancel w)"
| "run (SetUploadEnabled b # cs) w = run cs (w\<lparr>uploadEnabled := b\<rparr>)"

subsection \<open>Notions used in the statements\<close>

text \<open>
  The value that first-write-wins keeps for a destination whose stored value is \<open>old\<close>:
  the stored value when it is a valid record, otherwise the record of the new
  measurement.
\<close>

definition merged :: "real \<Rightarrow> TimeUnit \<Rightarrow> json \<Rightarrow> json" where
  "merged elapsed unit old =
     (if valid_DurationRecord old then old else timespan_object elapsed unit)"

text \<open>
  A freshly constructed metric in milliseconds, sent in the ping \<^verbatim>\<open>metrics\<close>, with
  collection enabled and nothing stored: the state of the end-to-end scenario of
  section 8 of the specification.
\<close>

definition fresh :: state where
  "fresh =
     \<lparr>metric = \<lparr>disabled = False, sendInPings = [''metrics''], timeUnit = Millisecond,
                startTime = None\<rparr>,
      uploadEnabled = True, metricsDatabase = Map.empty, console = []\<rparr>"

text \<open>
  The start time that is in force once the task of a \<^verbatim>\<open>start()\<close> at \<open>t\<close> has run on a
  recording metric: \<open>t\<close> for an idle metric, the earlier start time for a running one.
\<close>

definition running_since :: "real \<Rightarrow> state \<Rightarrow> real" where
  "running_since t w = (case startTime (metric w) of None \<Rightarrow> t | Some s \<Rightarrow> s)"

text \<open>
  The reals that are finite doubles: a significand of at most 53 bits times a power of
  two in the range of binary64.
\<close>

definition is_double :: "real \<Rightarrow> bool" where
  "is_double x =
     (\<exists>m e. \<bar>m\<bar> < 2 ^ 53 \<and> - 1074 \<le> e \<and> e \<le> 971 \<and> x = of_int m * pow2 e)"

section \<open>Properties\<close>

subsection \<open>The validator\<close>

lemma timeUnitVerification_JObject:
  "timeUnitVerification (JObject fs) = Inr (unit_field_ok (map_of fs ''timeUnit''))"
proof (cases "map_of fs ''timeUnit''")
  case None
  then show ?thesis by (simp add: timeUnitVerification_def)
next
  case (Some x)
  then show ?thesis
    by (cases x)
       (auto simp: timeUnitVerification_def Object_values_TimeUnit_def TimeUnit_strings_def)
qed

lemma timespanVerification_JObject:
  "timespanVerification (JObject fs) = Inr (magnitude_field_ok (map_of fs ''timespan''))"
proof (cases "map_of fs ''timespan''")
  case None
  then show ?thesis by (simp add: timespanVerification_def)
next
  case (Some x)
  then show ?thesis
    by (cases x) (auto simp: timespanVerification_def)
qed

lemma validate_valid: "validate v = Inr (valid_DurationRecord v)"
proof (cases v)
  case (JObject fs)
  then show ?thesis
    by (simp add: validate_def timeUnitVerification_JObject timespanVerification_JObject
        length_remdups_card_conv)
qed (simp_all add: validate_def)

lemma TimeUnit_value_in_strings: "TimeUnit_value u \<in> set TimeUnit_strings"
  by (cases u) (simp_all add: TimeUnit_strings_def)

lemma TimeUnit_strings_map:
  "TimeUnit_strings =
     map TimeUnit_value [Nanosecond, Microsecond, Millisecond, Second, Minute, Hour, Day]"
  by (simp add: TimeUnit_strings_def)

lemma TimeUnit_strings_values: "s \<in> set TimeUnit_strings \<Longrightarrow> \<exists>u. s = TimeUnit_value u"
  unfolding TimeUnit_strings_map by (metis imageE list.set_map)

lemma valid_timespan_object: "valid_DurationRecord (timespan_object e u) = (0 \<le> e)"
  by (simp add: timespan_object_def TimeUnit_value_in_strings)

lemma new_TimespanMetric_eq:
  "new_TimespanMetric v =
     (if valid_DurationRecord v then Inr \<lparr>inner = v\<rparr>
      else Inl Error)"
  by (simp add: new_TimespanMetric_def validate_valid)

subsection \<open>The merge function and the storage transform\<close>

lemma transformFn_eq:
  "0 \<le> e \<Longrightarrow> transformFn e old env =
     (Inr \<lparr>inner = merged e (timeUnit (metric (global env))) old\<rparr>,
      env\<lparr>reportValueExists := reportValueExists env \<or> valid_DurationRecord old\<rparr>)"
  by (simp add: transformFn_def new_TimespanMetric_eq valid_timespan_object merged_def)

lemma valid_merged: "0 \<le> e \<Longrightarrow> valid_DurationRecord (merged e u old)"
  by (simp add: merged_def valid_timespan_object)

text \<open>
  The transform of all destinations of the metric never fails for an elapsed time that
  is not negative; it changes the stored values of these destinations only, each to
  the merged value.
\<close>

lemma transform_transformFn:
  assumes "0 \<le> e"
  shows "\<exists>env'. transform (transformFn e) ps env = Inr env'
      \<and> metric (global env') = metric (global env)
      \<and> uploadEnabled (global env') = uploadEnabled (global env)
      \<and> console (global env') = console (global env)
      \<and> (\<forall>q. metricsDatabase (global env') q =
            (if q \<in> set ps
             then Some (merged e (timeUnit (metric (global env)))
                          (fetch (metricsDatabase (global env)) q))
             else metricsDatabase (global env) q))"
proof (induction ps arbitrary: env)
  case Nil
  then show ?case by simp
next
  case (Cons p ps)
  let ?u = "timeUnit (metric (global env))"
  let ?db = "metricsDatabase (global env)"
  let ?v = "merged e ?u (fetch ?db p)"
  let ?env1 = "env\<lparr>reportValueExists :=
                     reportValueExists env \<or> valid_DurationRecord (fetch ?db p)\<rparr>"
  let ?env2 = "persist p ?v ?env1"
  have step: "transform (transformFn e) (p # ps) env = transform (transformFn e) ps ?env2"
    using assms by (simp add: transformFn_eq)
  obtain env' where env': "transform (transformFn e) ps ?env2 = Inr env'"
      "metric (global env') = metric (global ?env2)"
      "uploadEnabled (global env') = uploadEnabled (global ?env2)"
      "console (global env') = console (global ?env2)"
      "\<forall>q. metricsDatabase (global env') q =
            (if q \<in> set ps
             then Some (merged e (timeUnit (metric (global ?env2)))
                          (fetch (metricsDatabase (global ?env2)) q))
             else metricsDatabase (global ?env2) q)"
    using Cons.IH [of ?env2] by blast
  have g2: "metric (global ?env2) = metric (global env)"
      "uploadEnabled (global ?env2) = uploadEnabled (global env)"
      "console (global ?env2) = console (global env)"
      "metricsDatabase (global ?env2) = ?db(p \<mapsto> ?v)"
    by (simp_all add: persist_def)
  have db: "metricsDatabase (global env') q =
            (if q \<in> set (p # ps) then Some (merged e ?u (fetch ?db q)) else ?db q)" for q
  proof (cases "q = p")
    case True
    have "merged e ?u ?v = ?v"
      using valid_merged [OF assms] by (simp add: merged_def)
    then show ?thesis
      using True env'(5) g2 by (simp add: fetch_def)
  next
    case False
    then show ?thesis
      using env'(5) g2 by (simp add: fetch_def)
  qed
  show ?case
    using step env'(1-4) g2 db by simp
qed

subsection \<open>More on valid records\<close>

lemma validate_True_iff: "validate v = Inr True \<longleftrightarrow> valid_DurationRecord v"
  by (simp add: validate_valid)

lemma valid_DurationRecord_iff:
  "valid_DurationRecord v \<longleftrightarrow>
     (\<exists>fs s n. v = JObject fs \<and> card (dom (map_of fs)) = 2
        \<and> map_of fs ''timeUnit'' = Some (JString s) \<and> s \<in> set TimeUnit_strings
        \<and> map_of fs ''timespan'' = Some (JNumber n) \<and> 0 \<le> n)"
proof (cases v)
  case (JObject fs)
  have u: "unit_field_ok x \<longleftrightarrow> (\<exists>s. x = Some (JString s) \<and> s \<in> set TimeUnit_strings)" for x
    by (cases x rule: unit_field_ok.cases) simp_all
  have m: "magnitude_field_ok x \<longleftrightarrow> (\<exists>n. x = Some (JNumber n) \<and> 0 \<le> n)" for x
    by (cases x rule: magnitude_field_ok.cases) simp_all
  show ?thesis
    using JObject by (auto simp: u m dom_map_of_conv_image_fst)
qed simp_all

lemma valid_DurationRecord_keys:
  assumes "valid_DurationRecord v"
  shows "\<exists>fs s n. v = JObject fs \<and> fst ` set fs = {''timeUnit'', ''timespan''}
           \<and> map_of fs ''timeUnit'' = Some (JString s) \<and> s \<in> set TimeUnit_strings
           \<and> map_of fs ''timespan'' = Some (JNumber n) \<and> 0 \<le> n"
proof -
  obtain fs s n where v: "v = JObject fs" "card (dom (map_of fs)) = 2"
      "map_of fs ''timeUnit'' = Some (JString s)" "s \<in> set TimeUnit_strings"
      "map_of fs ''timespan'' = Some (JNumber n)" "0 \<le> n"
    using assms valid_DurationRecord_iff [of v] by blast
  have sub: "{''timeUnit'', ''timespan''} \<subseteq> dom (map_of fs)"
    using v(3,5) by auto
  have "card {''timeUnit'', ''timespan''} = card (dom (map_of fs))"
    using v(2) by simp
  with sub have "{''timeUnit'', ''timespan''} = dom (map_of fs)"
    by (intro card_subset_eq) (simp_all add: finite_dom_map_of)
  then have "fst ` set fs = {''timeUnit'', ''timespan''}"
    by (simp add: dom_map_of_conv_image_fst)
  with v show ?thesis by blast
qed

lemma absent_key: "''durationMillis'' \<notin> {''timeUnit'', ''timespan''}"
  by simp

lemma valid_DurationRecord_fields:
  assumes "valid_DurationRecord v"
  shows "\<exists>u ms. js_get v ''timeUnit'' = Inr (JString (TimeUnit_value u))
           \<and> js_get v ''timespan'' = Inr (JNumber ms) \<and> 0 \<le> ms"
proof -
  obtain fs s n where v: "v = JObject fs" "map_of fs ''timeUnit'' = Some (JString s)"
      "s \<in> set TimeUnit_strings" "map_of fs ''timespan'' = Some (JNumber n)" "0 \<le> n"
    using assms valid_DurationRecord_iff [of v] by blast
  from v(3) obtain u where "s = TimeUnit_value u"
    using TimeUnit_strings_values by blast
  with v show ?thesis by auto
qed

subsection \<open>The tasks\<close>

lemma transformFn_valid:
  "valid_DurationRecord old \<Longrightarrow>
     transformFn e old env = (Inr \<lparr>inner = old\<rparr>, env\<lparr>reportValueExists := True\<rparr>)"
  by (simp add: transformFn_def new_TimespanMetric_eq)

lemma transformFn_invalid:
  "\<not> valid_DurationRecord old \<Longrightarrow>
     transformFn e old env =
       (new_TimespanMetric (timespan_object e (timeUnit (metric (global env)))), env)"
  by (simp add: transformFn_def new_TimespanMetric_eq)

lemma stop_records:
  assumes "shouldRecord (metric w) (uploadEnabled w)" and "startTime (metric w) = Some s"
    and "s \<le> t"
  shows "\<exists>w'. stop t w = Inr w'
      \<and> metric w' = (metric w)\<lparr>startTime := None\<rparr>
      \<and> uploadEnabled w' = uploadEnabled w
      \<and> (\<forall>q. metricsDatabase w' q =
            (if q \<in> set (sendInPings (metric w))
             then Some (merged (t - s) (timeUnit (metric w)) (fetch (metricsDatabase w) q))
             else metricsDatabase w q))"
proof -
  let ?w1 = "set_startTime None w"
  let ?env = "\<lparr>global = ?w1, reportValueExists = False\<rparr>"
  have e: "0 \<le> t - s" using assms(3) by simp
  obtain env' where env': "transform (transformFn (t - s)) (sendInPings (metric ?w1)) ?env = Inr env'"
      "metric (global env') = metric (global ?env)"
      "uploadEnabled (global env') = uploadEnabled (global ?env)"
      "\<forall>q. metricsDatabase (global env') q =
            (if q \<in> set (sendInPings (metric ?w1))
             then Some (merged (t - s) (timeUnit (metric (global ?env)))
                          (fetch (metricsDatabase (global ?env)) q))
             else metricsDatabase (global ?env) q)"
    using transform_transformFn [OF e, of "sendInPings (metric ?w1)" ?env] by blast
  have w1: "metric ?w1 = (metric w)\<lparr>startTime := None\<rparr>" "uploadEnabled ?w1 = uploadEnabled w"
      "metricsDatabase ?w1 = metricsDatabase w"
    by (simp_all add: set_startTime_def)
  have "stop t w = Inr (if reportValueExists env'
          then console_error ''Timespan value already recorded. New value discarded.'' (global env')
          else global env')"
    using assms e env'(1) by (simp add: stop_def Let_def)
  then show ?thesis
    using env'(2-4) w1 by (auto simp: console_error_def)
qed

lemma stop_disabled:
  "\<not> shouldRecord (metric w) (uploadEnabled w) \<Longrightarrow> stop t w = Inr (set_startTime None w)"
  by (simp add: stop_def)

lemma stop_not_running:
  "shouldRecord (metric w) (uploadEnabled w) \<Longrightarrow> startTime (metric w) = None \<Longrightarrow>
     stop t w = Inr (console_error ''Timespan not running.'' w)"
  by (simp add: stop_def)

lemma stop_negative:
  "shouldRecord (metric w) (uploadEnabled w) \<Longrightarrow> startTime (metric w) = Some s \<Longrightarrow> t < s \<Longrightarrow>
     stop t w = Inr (console_error ''Timespan was negative.'' (set_startTime None w))"
  by (simp add: stop_def Let_def)

lemma stop_keeps:
  "\<exists>w'. stop t w = Inr w'
      \<and> timeUnit (metric w') = timeUnit (metric w)
      \<and> sendInPings (metric w') = sendInPings (metric w)
      \<and> (\<forall>q. valid_DurationRecord (fetch (metricsDatabase w) q) \<longrightarrow>
             metricsDatabase w' q = metricsDatabase w q)"
proof (cases "shouldRecord (metric w) (uploadEnabled w)")
  case False
  then show ?thesis by (simp add: stop_disabled set_startTime_def)
next
  case True
  show ?thesis
  proof (cases "startTime (metric w)")
    case None
    with True show ?thesis by (simp add: stop_not_running console_error_def)
  next
    case (Some s)
    show ?thesis
    proof (cases "t < s")
      case True
      with \<open>shouldRecord (metric w) (uploadEnabled w)\<close> Some show ?thesis
        by (simp add: stop_negative console_error_def set_startTime_def)
    next
      case False
      then have "s \<le> t" by simp
      from stop_records [OF True Some this] obtain w' where w': "stop t w = Inr w'"
          "metric w' = (metric w)\<lparr>startTime := None\<rparr>"
          "\<forall>q. metricsDatabase w' q =
            (if q \<in> set (sendInPings (metric w))
             then Some (merged (t - s) (timeUnit (metric w)) (fetch (metricsDatabase w) q))
             else metricsDatabase w q)"
        by blast
      have "metricsDatabase w' q = metricsDatabase w q"
        if "valid_DurationRecord (fetch (metricsDatabase w) q)" for q
      proof -
        from that obtain v where "metricsDatabase w q = Some v"
          by (cases "metricsDatabase w q") (auto simp: fetch_def)
        with that w'(3) show ?thesis by (simp add: merged_def fetch_def)
      qed
      with w'(1,2) show ?thesis by simp
    qed
  qed
qed

lemma start_keeps:
  "timeUnit (metric (start t w)) = timeUnit (metric w)
   \<and> sendInPings (metric (start t w)) = sendInPings (metric w)
   \<and> metricsDatabase (start t w) = metricsDatabase w"
  by (simp add: start_def console_error_def set_startTime_def)

lemma cancel_keeps:
  "timeUnit (metric (cancel w)) = timeUnit (metric w)
   \<and> sendInPings (metric (cancel w)) = sendInPings (metric w)
   \<and> metricsDatabase (cancel w) = metricsDatabase w"
  by (simp add: cancel_def set_startTime_def)

text \<open>
  Every sequence of calls runs to its end, and a stored value that is a valid record
  stays what it is.
\<close>

lemma run_keeps:
  "\<exists>w'. run cs w = Inr w'
      \<and> timeUnit (metric w') = timeUnit (metric w)
      \<and> (\<forall>q. valid_DurationRecord (fetch (metricsDatabase w) q) \<longrightarrow>
             metricsDatabase w' q = metricsDatabase w q)"
proof (induction cs arbitrary: w)
  case Nil
  then show ?case by simp
next
  case (Cons c cs)
  show ?case
  proof (cases c)
    case (Start t)
    then show ?thesis
      using Cons.IH [of "start t w"] start_keeps [of t w] by simp
  next
    case (Stop t)
    obtain w1 where w1: "stop t w = Inr w1" "timeUnit (metric w1) = timeUnit (metric w)"
        "\<forall>q. valid_DurationRecord (fetch (metricsDatabase w) q) \<longrightarrow>
             metricsDatabase w1 q = metricsDatabase w q"
      using stop_keeps [of t w] by blast
    obtain w' where w': "run cs w1 = Inr w'" "timeUnit (metric w') = timeUnit (metric w1)"
        "\<forall>q. valid_DurationRecord (fetch (metricsDatabase w1) q) \<longrightarrow>
             metricsDatabase w' q = metricsDatabase w1 q"
      using Cons.IH [of w1] by blast
    have "metricsDatabase w' q = metricsDatabase w q"
      if "valid_DurationRecord (fetch (metricsDatabase w) q)" for q
    proof -
      have "metricsDatabase w1 q = metricsDatabase w q" using that w1(3) by blast
      then show ?thesis using that w'(3) by (simp add: fetch_def)
    qed
    then show ?thesis using Stop w1 w' by simp
  next
    case Cancel
    then show ?thesis
      using Cons.IH [of "cancel w"] cancel_keeps [of w] by simp
  next
    case (SetUploadEnabled b)
    then show ?thesis
      using Cons.IH [of "w\<lparr>uploadEnabled := b\<rparr>"] by simp
  qed
qed

subsection \<open>Binary64 rounding\<close>

lemma pow2_powr: "pow2 e = 2 powr (of_int e)"
proof (cases "0 \<le> e")
  case True
  then have "2 powr (of_int e) = (2::real) powr (real (nat e))" by simp
  also have "\<dots> = 2 ^ nat e" by (simp add: powr_realpow)
  finally show ?thesis using True by (simp add: pow2_def)
next
  case False
  then have "(2::real) powr (of_int e) = 2 powr (- real (nat (- e)))" by simp
  also have "\<dots> = 1 / 2 ^ nat (- e)" by (simp add: powr_minus powr_realpow divide_inverse)
  finally show ?thesis using False by (simp add: pow2_def)
qed

lemma pow2_pos [simp]: "0 < pow2 e"
  by (simp add: pow2_powr)

lemma pow2_ne0 [simp]: "pow2 e \<noteq> 0"
  using pow2_pos [of e] by linarith

lemma pow2_ge0 [simp]: "0 \<le> pow2 e"
  using pow2_pos [of e] by linarith

lemma pow2_not_le0 [simp]: "\<not> pow2 e \<le> 0"
  using pow2_pos [of e] by linarith

lemma abs_pow2 [simp]: "\<bar>pow2 e\<bar> = pow2 e"
  by simp

lemma pow2_add: "pow2 (a + b) = pow2 a * pow2 b"
  by (simp add: pow2_powr powr_add)

lemma pow2_diff: "pow2 (a - b) = pow2 a / pow2 b"
proof -
  have "pow2 a = pow2 ((a - b) + b)" by simp
  also have "\<dots> = pow2 (a - b) * pow2 b" by (rule pow2_add)
  finally show ?thesis by simp
qed

lemma pow2_less_iff [simp]: "pow2 a < pow2 b \<longleftrightarrow> a < b"
  by (simp add: pow2_powr)

lemma pow2_le_iff [simp]: "pow2 a \<le> pow2 b \<longleftrightarrow> a \<le> b"
  by (simp add: pow2_powr)

lemma pow2_nat: "0 \<le> e \<Longrightarrow> pow2 e = 2 ^ nat e"
  by (simp add: pow2_def)

lemma pow2_of_int: "0 \<le> e \<Longrightarrow> pow2 e = of_int (2 ^ nat e)"
  by (simp add: pow2_def)

lemma pow2_minus_nat: "pow2 (- int p) = 1 / 2 ^ p"
  by (cases "p = 0") (simp_all add: pow2_def)

text \<open>The exponent that \<open>ilog2\<close> computes is the binary exponent.\<close>

lemma ilog2_bounds:
  assumes "0 < x"
  shows "pow2 (ilog2 x) \<le> x \<and> x < pow2 (ilog2 x + 1)"
proof (cases "1 \<le> x")
  case True
  let ?n = "\<lfloor>x\<rfloor>"
  have n: "0 < ?n" using True by simp
  have b: "2 ^ nat (bitlen ?n - 1) \<le> ?n \<and> ?n < 2 ^ nat (bitlen ?n)"
    using bitlen_bounds [OF n] .
  have bl: "1 \<le> bitlen ?n"
    using n bitlen_eq_zero_iff [of ?n] bitlen_nonneg [of ?n] by (smt (verit))
  have k: "ilog2 x = bitlen ?n - 1" using True by (simp add: ilog2_def)
  have "pow2 (bitlen ?n - 1) = of_int (2 ^ nat (bitlen ?n - 1))"
    using bl by (intro pow2_of_int) simp
  also have "\<dots> \<le> of_int ?n" using b by (simp only: of_int_le_iff)
  also have "\<dots> \<le> x" by simp
  finally have lo: "pow2 (bitlen ?n - 1) \<le> x" .
  have "?n + 1 \<le> 2 ^ nat (bitlen ?n)" using b by simp
  then have "(of_int (?n + 1) :: real) \<le> of_int (2 ^ nat (bitlen ?n))"
    by (simp only: of_int_le_iff)
  moreover have "x < of_int (?n + 1)" by linarith
  moreover have "pow2 (bitlen ?n) = of_int (2 ^ nat (bitlen ?n))"
    using bl by (intro pow2_of_int) simp
  ultimately have hi: "x < pow2 (bitlen ?n)" by linarith
  show ?thesis using lo hi k by simp
next
  case False
  with assms have x: "0 < x" "x < 1" by simp_all
  define y where "y = 1 / x"
  define n where "n = \<lceil>y\<rceil> - 1"
  have y: "1 < y" using x by (simp add: y_def)
  then have n: "0 < n" unfolding n_def by linarith
  have ny: "of_int n < y" "y \<le> of_int n + 1" unfolding n_def by linarith+
  have b: "2 ^ nat (bitlen n - 1) \<le> n \<and> n < 2 ^ nat (bitlen n)"
    using bitlen_bounds [OF n] .
  have bl: "1 \<le> bitlen n"
    using n bitlen_eq_zero_iff [of n] bitlen_nonneg [of n] by (smt (verit))
  have k: "ilog2 x = - bitlen n" using False by (simp add: ilog2_def n_def y_def)
  have "n + 1 \<le> 2 ^ nat (bitlen n)" using b by simp
  then have "(of_int (n + 1) :: real) \<le> of_int (2 ^ nat (bitlen n))"
    by (simp only: of_int_le_iff)
  moreover have "(of_int (n + 1) :: real) = of_int n + 1" by simp
  moreover have "(of_int (2 ^ nat (bitlen n)) :: real) = 2 ^ nat (bitlen n)" by simp
  ultimately have "y \<le> 2 ^ nat (bitlen n)" using ny(2) by linarith
  then have "1 / x \<le> 2 ^ nat (bitlen n)" by (simp only: y_def)
  then have "1 / 2 ^ nat (bitlen n) \<le> x"
    using x(1) by (simp add: field_simps)
  moreover have "pow2 (- bitlen n) = 1 / 2 ^ nat (bitlen n)"
    using bl by (simp add: pow2_def)
  ultimately have lo: "pow2 (- bitlen n) \<le> x" by simp
  have "(of_int (2 ^ nat (bitlen n - 1)) :: real) \<le> of_int n"
    using b by (simp only: of_int_le_iff)
  moreover have "(of_int (2 ^ nat (bitlen n - 1)) :: real) = 2 ^ nat (bitlen n - 1)" by simp
  ultimately have "2 ^ nat (bitlen n - 1) < y" using ny(1) by linarith
  then have "2 ^ nat (bitlen n - 1) < 1 / x" by (simp only: y_def)
  then have "x < 1 / 2 ^ nat (bitlen n - 1)"
    using x(1) by (simp add: field_simps)
  moreover have "pow2 (- bitlen n + 1) = 1 / 2 ^ nat (bitlen n - 1)"
  proof (cases "bitlen n = 1")
    case True then show ?thesis by (simp add: pow2_def)
  next
    case False
    with bl have "- bitlen n + 1 < 0" by simp
    moreover have "nat (- (- bitlen n + 1)) = nat (bitlen n - 1)" by simp
    ultimately show ?thesis by (simp add: pow2_def)
  qed
  ultimately have hi: "x < pow2 (- bitlen n + 1)" by simp
  show ?thesis using lo hi k by simp
qed

lemma ilog2_eqI:
  assumes "pow2 k \<le> x" and "x < pow2 (k + 1)"
  shows "ilog2 x = k"
proof -
  have x: "0 < x" using assms(1) pow2_pos [of k] by linarith
  from ilog2_bounds [OF x] have b: "pow2 (ilog2 x) \<le> x" "x < pow2 (ilog2 x + 1)" by simp_all
  have "pow2 k < pow2 (ilog2 x + 1)" using assms(1) b(2) by linarith
  then have "k < ilog2 x + 1" by simp
  moreover have "pow2 (ilog2 x) < pow2 (k + 1)" using assms(2) b(1) by linarith
  then have "ilog2 x < k + 1" by simp
  ultimately show ?thesis by simp
qed

lemma round_half_even_of_int [simp]: "round_half_even (of_int n) = n"
  by (simp add: round_half_even_def)

lemma round_half_even_nearest:
  "\<bar>of_int (round_half_even q) - q\<bar> \<le> \<bar>of_int j - q\<bar>"
proof -
  define f where "f = \<lfloor>q\<rfloor>"
  define d where "d = q - of_int f"
  have d: "0 \<le> d" "d < 1" unfolding d_def f_def by linarith+
  have q: "q = of_int f + d" by (simp add: d_def)
  consider "j \<le> f" | "f + 1 \<le> j" by linarith
  then have far: "\<bar>of_int j - q\<bar> \<ge> min d (1 - d)"
  proof cases
    case 1
    then have "(of_int j :: real) \<le> of_int f" by (simp only: of_int_le_iff)
    then show ?thesis unfolding q using d by linarith
  next
    case 2
    then have "(of_int (f + 1) :: real) \<le> of_int j" by (simp only: of_int_le_iff)
    then show ?thesis unfolding q using d by simp
  qed
  define R where "R = round_half_even q"
  have r: "R = (if d < 1 / 2 then f else if 1 / 2 < d then f + 1
      else if even f then f else f + 1)"
    by (simp add: R_def round_half_even_def Let_def f_def d_def)
  have "\<bar>of_int R - q\<bar> = min d (1 - d)"
  proof (cases "d < 1 / 2")
    case True
    then have "R = f" by (simp add: r)
    then show ?thesis unfolding q using d True by simp
  next
    case False
    show ?thesis
    proof (cases "1 / 2 < d")
      case True
      then have "R = f + 1" using False by (simp add: r)
      then show ?thesis unfolding q using d True by simp
    next
      case F2: False
      with False have h: "d = 1 / 2" by simp
      have "R = f \<or> R = f + 1" using False F2 by (simp add: r)
      then show ?thesis unfolding q h by auto
    qed
  qed
  with far show ?thesis unfolding R_def by linarith
qed

text \<open>Rounding, once the binary exponent of the argument is known.\<close>

lemma fl_eval:
  assumes "pow2 k \<le> \<bar>x\<bar>" and "\<bar>x\<bar> < pow2 (k + 1)"
  shows "fl x =
     (let e = max k (- 1022) - 52;
          y = of_int (round_half_even (x / pow2 e)) * pow2 e
      in if pow2 1024 \<le> y then PosInfinity
         else if y \<le> - pow2 1024 then NegInfinity
         else Finite y)"
proof -
  have "x \<noteq> 0" using assms(1) pow2_pos [of k] by auto
  moreover have "ilog2 \<bar>x\<bar> = k" using assms by (rule ilog2_eqI)
  ultimately show ?thesis by (simp add: fl_def)
qed

text \<open>A double is rounded to itself.\<close>

lemma is_double_scaled:
  "\<bar>j\<bar> < 2 ^ 53 \<Longrightarrow> - 1074 \<le> e \<Longrightarrow> e \<le> 971 \<Longrightarrow> is_double (of_int j * pow2 e)"
  unfolding is_double_def by blast

lemma is_double_of_int: "\<bar>n\<bar> < 2 ^ 53 \<Longrightarrow> is_double (of_int n)"
  unfolding is_double_def by (intro exI [of _ n] exI [of _ 0]) (simp add: pow2_def)

lemma is_double_less: "is_double c \<Longrightarrow> \<bar>c\<bar> < pow2 1024"
proof -
  assume "is_double c"
  then obtain m ec where c: "\<bar>m\<bar> < 2 ^ 53" "- 1074 \<le> ec" "ec \<le> 971"
      "c = of_int m * pow2 ec"
    unfolding is_double_def by blast
  have m53: "\<bar>of_int m :: real\<bar> < 2 ^ 53"
  proof -
    have "(of_int \<bar>m\<bar> :: real) < of_int (2 ^ 53)" using c(1) by (simp only: of_int_less_iff)
    then show ?thesis by simp
  qed
  have p53: "pow2 53 = 2 ^ 53" by (simp add: pow2_def)
  have "\<bar>c\<bar> = \<bar>of_int m\<bar> * pow2 ec" by (simp add: c(4) abs_mult)
  also have "\<dots> < 2 ^ 53 * pow2 ec"
    using m53 by (simp add: mult_strict_right_mono)
  also have "\<dots> = pow2 (53 + ec)" by (simp only: pow2_add p53)
  also have "\<dots> \<le> pow2 1024" using c(3) by simp
  finally show ?thesis .
qed

lemma fl_is_double:
  assumes "is_double x"
  shows "fl x = Finite x"
proof (cases "x = 0")
  case True
  then show ?thesis by (simp add: fl_def)
next
  case False
  from assms obtain m e where me: "\<bar>m\<bar> < 2 ^ 53" "- 1074 \<le> e" "e \<le> 971"
      "x = of_int m * pow2 e"
    unfolding is_double_def by blast
  have p53: "pow2 53 = 2 ^ 53" by (simp add: pow2_def)
  define k where "k = ilog2 \<bar>x\<bar>"
  define e' where "e' = max k (- 1022) - 52"
  have xpos: "0 < \<bar>x\<bar>" using False by simp
  have kb: "pow2 k \<le> \<bar>x\<bar>" "\<bar>x\<bar> < pow2 (k + 1)"
    using ilog2_bounds [OF xpos] by (simp_all add: k_def)
  have m53: "\<bar>of_int m :: real\<bar> < 2 ^ 53"
  proof -
    have "(of_int \<bar>m\<bar> :: real) < of_int (2 ^ 53)" using me(1) by (simp only: of_int_less_iff)
    then show ?thesis by simp
  qed
  have ax: "\<bar>x\<bar> = \<bar>of_int m\<bar> * pow2 e"
    by (simp add: me(4) abs_mult)
  have "\<bar>x\<bar> < 2 ^ 53 * pow2 e"
    unfolding ax using m53 by (simp add: mult_strict_right_mono)
  also have "\<dots> = pow2 (53 + e)" by (simp only: pow2_add p53)
  finally have xlt: "\<bar>x\<bar> < pow2 (53 + e)" .
  with kb(1) have "pow2 k < pow2 (53 + e)" by linarith
  then have "k < 53 + e" by simp
  then have le: "e' \<le> e" using me(2) by (simp add: e'_def)
  have "x / pow2 e' = of_int m * pow2 (e - e')"
    by (simp add: me(4) pow2_diff)
  also have "pow2 (e - e') = of_int (2 ^ nat (e - e'))"
    using le by (intro pow2_of_int) simp
  finally have q: "x / pow2 e' = of_int (m * 2 ^ nat (e - e'))" by simp
  have r: "of_int (round_half_even (x / pow2 e')) * pow2 e' = x"
  proof -
    have "round_half_even (x / pow2 e') = m * 2 ^ nat (e - e')"
      unfolding q by (rule round_half_even_of_int)
    then have "of_int (round_half_even (x / pow2 e')) * pow2 e' = (x / pow2 e') * pow2 e'"
      using q by simp
    then show ?thesis by simp
  qed
  have "pow2 (53 + e) \<le> pow2 1024" using me(3) by simp
  with xlt have b: "\<bar>x\<bar> < pow2 1024" by linarith
  have "fl x = (let e = max k (- 1022) - 52;
          y = of_int (round_half_even (x / pow2 e)) * pow2 e
      in if pow2 1024 \<le> y then PosInfinity
         else if y \<le> - pow2 1024 then NegInfinity
         else Finite y)"
    using kb by (rule fl_eval)
  moreover have "\<not> pow2 1024 \<le> x" "\<not> x \<le> - pow2 1024"
    using b by linarith+
  ultimately show ?thesis
    using r by (simp add: Let_def e'_def [symmetric])
qed

text \<open>
  The rounded value, before the test for overflow, is at least as near to the exact
  value as any double.
\<close>

lemma fl_nearest:
  assumes "x \<noteq> 0" and "is_double c"
  defines "e \<equiv> max (ilog2 \<bar>x\<bar>) (- 1022) - 52"
  defines "y \<equiv> of_int (round_half_even (x / pow2 e)) * pow2 e"
  shows "\<bar>y - x\<bar> \<le> \<bar>c - x\<bar>"
proof -
  have mult: "\<bar>y - x\<bar> \<le> \<bar>of_int j * pow2 e - x\<bar>" for j
  proof -
    have "y - x = (of_int (round_half_even (x / pow2 e)) - x / pow2 e) * pow2 e"
      by (simp add: y_def left_diff_distrib)
    then have "\<bar>y - x\<bar> = \<bar>of_int (round_half_even (x / pow2 e)) - x / pow2 e\<bar> * pow2 e"
      by (simp only: abs_mult abs_pow2)
    also have "\<dots> \<le> \<bar>of_int j - x / pow2 e\<bar> * pow2 e"
      using round_half_even_nearest [of "x / pow2 e" j] by (simp add: mult_right_mono)
    also have "\<dots> = \<bar>of_int j * pow2 e - x\<bar>"
    proof -
      have "\<bar>of_int j - x / pow2 e\<bar> * pow2 e = \<bar>(of_int j - x / pow2 e) * pow2 e\<bar>"
        by (simp add: abs_mult)
      also have "(of_int j - x / pow2 e) * pow2 e = of_int j * pow2 e - x"
        by (simp add: left_diff_distrib)
      finally show ?thesis .
    qed
    finally show ?thesis .
  qed
  from assms(2) obtain m ec where c: "\<bar>m\<bar> < 2 ^ 53" "- 1074 \<le> ec" "ec \<le> 971"
      "c = of_int m * pow2 ec"
    unfolding is_double_def by blast
  show ?thesis
  proof (cases "e \<le> ec")
    case True
    have "pow2 ec = pow2 (ec - e) * pow2 e"
      using pow2_add [of "ec - e" e] by simp
    also have "pow2 (ec - e) = of_int (2 ^ nat (ec - e))"
      using True by (intro pow2_of_int) simp
    finally have "c = of_int (m * 2 ^ nat (ec - e)) * pow2 e"
      by (simp add: c(4))
    then show ?thesis using mult [of "m * 2 ^ nat (ec - e)"] by simp
  next
    case False
    define k where "k = ilog2 \<bar>x\<bar>"
    have xpos: "0 < \<bar>x\<bar>" using assms(1) by simp
    have kb: "pow2 k \<le> \<bar>x\<bar>" using ilog2_bounds [OF xpos] by (simp add: k_def)
    from False c(2) have "- 1074 < e" by simp
    then have ek: "e = k - 52" and "- 1022 < k"
      by (simp_all add: e_def k_def [symmetric] max_def split: if_splits)
    have m53: "\<bar>of_int m :: real\<bar> < 2 ^ 53"
    proof -
      have "(of_int \<bar>m\<bar> :: real) < of_int (2 ^ 53)" using c(1) by (simp only: of_int_less_iff)
      then show ?thesis by simp
    qed
    have p53: "pow2 53 = 2 ^ 53" by (simp add: pow2_def)
    have "\<bar>c\<bar> = \<bar>of_int m\<bar> * pow2 ec" by (simp add: c(4) abs_mult)
    also have "\<dots> \<le> 2 ^ 53 * pow2 ec"
      using m53 by (simp add: mult_right_mono)
    also have "\<dots> = pow2 (53 + ec)" by (simp only: pow2_add p53)
    also have "\<dots> \<le> pow2 k" using False ek by simp
    finally have ck: "\<bar>c\<bar> \<le> pow2 k" .
    have p52: "pow2 52 = of_int (2 ^ 52)" by (simp add: pow2_def)
    have "pow2 k = pow2 52 * pow2 e" using pow2_add [of 52 e] by (simp add: ek)
    then have pk: "pow2 k = of_int (2 ^ 52) * pow2 e" by (simp only: p52)
    show ?thesis
    proof (cases "0 < x")
      case True
      have "\<bar>y - x\<bar> \<le> \<bar>of_int (2 ^ 52) * pow2 e - x\<bar>" by (rule mult)
      also have "of_int (2 ^ 52) * pow2 e = pow2 k" by (simp only: pk)
      also have "\<bar>pow2 k - x\<bar> = x - pow2 k" using kb True by simp
      also have "\<dots> \<le> \<bar>c - x\<bar>" using ck by linarith
      finally show ?thesis .
    next
      case False
      with assms(1) have neg: "x < 0" by simp
      have "\<bar>y - x\<bar> \<le> \<bar>of_int (- (2 ^ 52)) * pow2 e - x\<bar>" by (rule mult)
      also have "of_int (- (2 ^ 52)) * pow2 e = - pow2 k"
      proof -
        have "of_int (- (2 ^ 52)) * pow2 e = - (of_int (2 ^ 52) * pow2 e)" by simp
        then show ?thesis by (simp only: pk)
      qed
      also have "\<bar>- pow2 k - x\<bar> = - x - pow2 k" using kb neg by simp
      also have "\<dots> \<le> \<bar>c - x\<bar>" using ck by linarith
      finally show ?thesis .
    qed
  qed
qed

text \<open>Rounding stays between two doubles that enclose the exact value.\<close>

lemma fl_between:
  assumes "is_double a" and "is_double b" and "a \<le> x" and "x \<le> b"
  shows "\<exists>y. fl x = Finite y \<and> a \<le> y \<and> y \<le> b"
proof (cases "x = 0")
  case True
  then show ?thesis using assms(3,4) by (simp add: fl_def)
next
  case False
  define e where "e = max (ilog2 \<bar>x\<bar>) (- 1022) - 52"
  define y where "y = of_int (round_half_even (x / pow2 e)) * pow2 e"
  have na: "\<bar>y - x\<bar> \<le> \<bar>a - x\<bar>"
    unfolding y_def e_def using False assms(1) by (rule fl_nearest)
  have nb: "\<bar>y - x\<bar> \<le> \<bar>b - x\<bar>"
    unfolding y_def e_def using False assms(2) by (rule fl_nearest)
  have ya: "a \<le> y" using na assms(3) by linarith
  have yb: "y \<le> b" using nb assms(4) by linarith
  have "\<bar>a\<bar> < pow2 1024" "\<bar>b\<bar> < pow2 1024"
    using assms(1,2) by (simp_all add: is_double_less)
  with ya yb have "\<not> pow2 1024 \<le> y" "\<not> y \<le> - pow2 1024" by linarith+
  then have "fl x = Finite y"
    using False by (simp add: fl_def Let_def e_def [symmetric] y_def [symmetric])
  with ya yb show ?thesis by simp
qed

subsection \<open>Whole milliseconds divided and rounded\<close>

text \<open>
  One division of the chain: a value in a window around a multiple of the remaining
  divisor, with a margin below the upper tie, is taken by a rounded division into the
  window for the next divisor, with a smaller margin that is still a power of two.
\<close>

lemma window_step:
  fixes c k :: int and p :: nat and x d \<delta> :: real
  assumes lo: "of_int (c * (2 * k - 1)) / 2 * d \<le> x"
    and hi: "x \<le> of_int (c * (2 * k + 1)) / 2 * d - \<delta>"
    and d: "0 < d" and \<delta>: "d * pow2 (- int p) \<le> \<delta>"
    and p: "1 \<le> p" "p \<le> 1074"
    and c: "0 \<le> c" and k: "0 \<le> k"
    and b: "c * (2 * k + 1) * 2 ^ (p - 1) < 2 ^ 53"
  shows "\<exists>y. fl (x / d) = Finite y \<and> of_int (c * (2 * k - 1)) / 2 \<le> y
           \<and> y \<le> of_int (c * (2 * k + 1)) / 2 - pow2 (- int p)"
proof -
  define ja where "ja = c * (2 * k - 1)"
  define jb where "jb = c * (2 * k + 1) * 2 ^ (p - 1) - 1"
  have pos: "0 \<le> c * (2 * k + 1)" using c k by simp
  have one: "(1::int) \<le> 2 ^ (p - 1)" by simp
  have "c * (2 * k + 1) * 1 \<le> c * (2 * k + 1) * 2 ^ (p - 1)"
    using pos one by (rule mult_left_mono [rotated])
  then have cb: "c * (2 * k + 1) < 2 ^ 53" using b by simp
  have "c * (2 * k - 1) \<le> c * (2 * k + 1)" using c by (simp add: mult_left_mono)
  moreover have "- (c * (2 * k + 1)) \<le> c * (2 * k - 1)"
  proof -
    have "0 \<le> c * (4 * k)" using c k by simp
    then show ?thesis by (simp add: algebra_simps)
  qed
  ultimately have ja: "\<bar>ja\<bar> < 2 ^ 53" using cb unfolding ja_def by linarith
  define P where "P = c * (2 * k + 1) * 2 ^ (p - 1)"
  have "0 \<le> P" using pos by (simp add: P_def)
  moreover have "P < 2 ^ 53" using b by (simp only: P_def)
  ultimately have "\<bar>P - 1\<bar> < 2 ^ 53" by simp
  then have jb: "\<bar>jb\<bar> < 2 ^ 53" by (simp only: jb_def P_def)
  have a_eq: "of_int (c * (2 * k - 1)) / 2 = of_int ja * pow2 (- 1)"
    by (simp add: ja_def pow2_def)
  have b_eq: "of_int (c * (2 * k + 1)) / 2 - pow2 (- int p) = of_int jb * pow2 (- int p)"
  proof -
    define A where "A = (of_int (c * (2 * k + 1)) :: real)"
    define H where "H = (2::real) ^ (p - 1)"
    define Q where "Q = pow2 (- int p)"
    have "(2::real) ^ p = 2 ^ (p - 1) * 2" using p(1) by (cases p) simp_all
    then have HQ: "H * Q = 1 / 2" by (simp add: H_def Q_def pow2_minus_nat)
    have "of_int jb = A * H - 1" by (simp add: jb_def A_def H_def)
    then have "of_int jb * Q = (A * H - 1) * Q" by (simp only:)
    also have "\<dots> = A * (H * Q) - Q" by (simp add: algebra_simps)
    also have "\<dots> = A / 2 - Q" by (simp add: HQ)
    finally show ?thesis by (simp only: A_def Q_def)
  qed
  have da: "is_double (of_int (c * (2 * k - 1)) / 2)"
    unfolding a_eq using ja by (rule is_double_scaled) simp_all
  have db: "is_double (of_int (c * (2 * k + 1)) / 2 - pow2 (- int p))"
    unfolding b_eq using jb by (rule is_double_scaled) (use p in simp_all)
  have l: "of_int (c * (2 * k - 1)) / 2 \<le> x / d"
    using lo d by (simp add: pos_le_divide_eq)
  have "pow2 (- int p) \<le> \<delta> / d"
    using \<delta> d by (simp add: pos_le_divide_eq mult.commute)
  moreover have "x / d \<le> of_int (c * (2 * k + 1)) / 2 - \<delta> / d"
  proof -
    have "x / d \<le> (of_int (c * (2 * k + 1)) / 2 * d - \<delta>) / d"
      using hi d by (simp add: divide_right_mono)
    also have "\<dots> = of_int (c * (2 * k + 1)) / 2 - \<delta> / d"
      using d by (simp add: diff_divide_distrib)
    finally show ?thesis .
  qed
  ultimately have u: "x / d \<le> of_int (c * (2 * k + 1)) / 2 - pow2 (- int p)" by linarith
  from fl_between [OF da db l u] show ?thesis .
qed

lemma floor_window:
  assumes "of_int (2 * k - 1) / 2 \<le> y" and "y \<le> of_int (2 * k + 1) / 2 - pow2 (- int p)"
  shows "\<lfloor>y + 1 / 2\<rfloor> = k"
proof -
  have e: "(of_int (2 * k - 1) :: real) / 2 = of_int k - 1 / 2"
      "(of_int (2 * k + 1) :: real) / 2 = of_int k + 1 / 2"
    by simp_all
  have "0 < pow2 (- int p)" by (rule pow2_pos)
  with assms have "of_int k \<le> y + 1 / 2" "y + 1 / 2 < of_int k + 1"
    unfolding e by linarith+
  then show ?thesis by linarith
qed

text \<open>The nearest integer to \<open>n / (2 * h)\<close>, for whole \<open>n\<close> and \<open>h\<close>, in integer terms.\<close>

lemma round_bounds:
  fixes n h :: int
  assumes "0 < h" and "0 \<le> n"
  defines "k \<equiv> round (of_int n / of_int (2 * h) :: real)"
  shows "h * (2 * k - 1) \<le> n" and "n + 1 \<le> h * (2 * k + 1)" and "0 \<le> k"
proof -
  define q where "q = (of_int n / of_int (2 * h) :: real)"
  have hpos: "(0::real) < of_int (2 * h)" using assms(1) by simp
  have k: "of_int k \<le> q + 1 / 2" "q + 1 / 2 < of_int k + 1"
    unfolding k_def q_def round_def by linarith+
  have "q * of_int (2 * h) = of_int n" using hpos by (simp add: q_def)
  then have n: "of_int n = q * (2 * of_int h)" by simp
  have hr: "(0::real) < of_int h" using assms(1) by simp
  have "(of_int k - 1 / 2) * (2 * of_int h) \<le> q * (2 * of_int h)"
    using k(1) hr by (intro mult_right_mono) simp_all
  then have "(of_int (h * (2 * k - 1)) :: real) \<le> of_int n"
    unfolding n by (simp add: algebra_simps)
  then show "h * (2 * k - 1) \<le> n" by (simp only: of_int_le_iff)
  have "q * (2 * of_int h) < (of_int k + 1 / 2) * (2 * of_int h)"
    using k(2) hr by (intro mult_strict_right_mono) simp_all
  then have "(of_int n :: real) < of_int (h * (2 * k + 1))"
    unfolding n by (simp add: algebra_simps)
  then have "n < h * (2 * k + 1)" by (simp only: of_int_less_iff)
  then show "n + 1 \<le> h * (2 * k + 1)" by simp
  have "0 \<le> q" using assms by (simp add: q_def)
  with k(2) have "(-1 :: real) < of_int k" by linarith
  then have "(of_int (- 1) :: real) < of_int k" by simp
  then have "- 1 < k" by (simp only: of_int_less_iff)
  then show "0 \<le> k" by simp
qed

text \<open>
  For a whole number of milliseconds below \<open>2\<^sup>5\<^sup>2\<close> the rounded divisions of the code
  and \<^verbatim>\<open>Math.round\<close> give the nearest integer of the exact quotient.
\<close>

lemma second_exact:
  fixes n :: int
  assumes "0 \<le> n" and "n < 2 ^ 52"
  shows "Math_round (js_divide (Finite (of_int n)) 1000)
       = Finite (of_int (round (of_int n / 1000 :: real)))"
proof -
  define k where "k = round (of_int n / of_int (2 * 500) :: real)"
  have kr: "k = round (of_int n / 1000 :: real)" by (simp add: k_def)
  have rb: "500 * (2 * k - 1) \<le> n" "n + 1 \<le> 500 * (2 * k + 1)" "0 \<le> k"
    unfolding k_def using assms(1) by (rule round_bounds [rotated], simp)+
  have lo: "(of_int (500 * (2 * k - 1)) :: real) \<le> of_int n"
    using rb(1) by (simp only: of_int_le_iff)
  have hi: "(of_int (n + 1) :: real) \<le> of_int (500 * (2 * k + 1))"
    using rb(2) by (simp only: of_int_le_iff)
  have b: "1 * (2 * k + 1) * 2 ^ (10 - 1) < (2::int) ^ 53"
    using rb(1) assms(2) by simp
  have "\<exists>y. fl (of_int n / 1000) = Finite y \<and> of_int (1 * (2 * k - 1)) / 2 \<le> y
           \<and> y \<le> of_int (1 * (2 * k + 1)) / 2 - pow2 (- int 10)"
  proof (rule window_step [where \<delta> = 1])
    show "of_int (1 * (2 * k - 1)) / 2 * 1000 \<le> (of_int n :: real)" using lo by simp
    show "(of_int n :: real) \<le> of_int (1 * (2 * k + 1)) / 2 * 1000 - 1"
      using hi by (simp add: add_divide_distrib)
    show "(1000::real) * pow2 (- int 10) \<le> 1" by (simp add: pow2_def)
    show "1 * (2 * k + 1) * 2 ^ (10 - 1) < (2::int) ^ 53" by (rule b)
  qed (use rb in simp_all)
  then obtain y where y: "fl (of_int n / 1000) = Finite y" "of_int (2 * k - 1) / 2 \<le> y"
      "y \<le> of_int (2 * k + 1) / 2 - pow2 (- int 10)"
    by auto
  from floor_window [OF y(2,3)] y(1) show ?thesis by (simp add: kr)
qed

lemma minute_exact:
  fixes n :: int
  assumes "0 \<le> n" and "n < 2 ^ 52"
  shows "Math_round (js_divide (js_divide (Finite (of_int n)) 1000) 60)
       = Finite (of_int (round (of_int n / 60000 :: real)))"
proof -
  define k where "k = round (of_int n / of_int (2 * 30000) :: real)"
  have kr: "k = round (of_int n / 60000 :: real)" by (simp add: k_def)
  have rb: "30000 * (2 * k - 1) \<le> n" "n + 1 \<le> 30000 * (2 * k + 1)" "0 \<le> k"
    unfolding k_def using assms(1) by (rule round_bounds [rotated], simp)+
  have lo: "(of_int (30000 * (2 * k - 1)) :: real) \<le> of_int n"
    using rb(1) by (simp only: of_int_le_iff)
  have hi: "(of_int (n + 1) :: real) \<le> of_int (30000 * (2 * k + 1))"
    using rb(2) by (simp only: of_int_le_iff)
  have "\<exists>y. fl (of_int n / 1000) = Finite y \<and> of_int (60 * (2 * k - 1)) / 2 \<le> y
           \<and> y \<le> of_int (60 * (2 * k + 1)) / 2 - pow2 (- int 10)"
  proof (rule window_step [where \<delta> = 1])
    show "of_int (60 * (2 * k - 1)) / 2 * 1000 \<le> (of_int n :: real)" using lo by simp
    show "(of_int n :: real) \<le> of_int (60 * (2 * k + 1)) / 2 * 1000 - 1"
      using hi by (simp add: add_divide_distrib)
    show "(1000::real) * pow2 (- int 10) \<le> 1" by (simp add: pow2_def)
    show "60 * (2 * k + 1) * 2 ^ (10 - 1) < (2::int) ^ 53" using rb(1) assms(2) by simp
  qed (use rb in simp_all)
  then obtain y1 where y1: "fl (of_int n / 1000) = Finite y1" "of_int (60 * (2 * k - 1)) / 2 \<le> y1"
      "y1 \<le> of_int (60 * (2 * k + 1)) / 2 - pow2 (- int 10)"
    by auto
  have "\<exists>y. fl (y1 / 60) = Finite y \<and> of_int (1 * (2 * k - 1)) / 2 \<le> y
           \<and> y \<le> of_int (1 * (2 * k + 1)) / 2 - pow2 (- int 16)"
  proof (rule window_step [where \<delta> = "pow2 (- int 10)"])
    show "of_int (1 * (2 * k - 1)) / 2 * 60 \<le> y1" using y1(2) by simp
    show "y1 \<le> of_int (1 * (2 * k + 1)) / 2 * 60 - pow2 (- int 10)" using y1(3) by simp
    show "60 * pow2 (- int 16) \<le> pow2 (- int 10)" by (simp add: pow2_def)
    show "1 * (2 * k + 1) * 2 ^ (16 - 1) < (2::int) ^ 53" using rb(1) assms(2) by simp
  qed (use rb in simp_all)
  then obtain y where y: "fl (y1 / 60) = Finite y" "of_int (2 * k - 1) / 2 \<le> y"
      "y \<le> of_int (2 * k + 1) / 2 - pow2 (- int 16)"
    by auto
  from floor_window [OF y(2,3)] y(1) y1(1) show ?thesis by (simp add: kr)
qed

lemma hour_exact:
  fixes n :: int
  assumes "0 \<le> n" and "n < 2 ^ 52"
  shows "Math_round (js_divide (js_divide (js_divide (Finite (of_int n)) 1000) 60) 60)
       = Finite (of_int (round (of_int n / 3600000 :: real)))"
proof -
  define k where "k = round (of_int n / of_int (2 * 1800000) :: real)"
  have kr: "k = round (of_int n / 3600000 :: real)" by (simp add: k_def)
  have rb: "1800000 * (2 * k - 1) \<le> n" "n + 1 \<le> 1800000 * (2 * k + 1)" "0 \<le> k"
    unfolding k_def using assms(1) by (rule round_bounds [rotated], simp)+
  have lo: "(of_int (1800000 * (2 * k - 1)) :: real) \<le> of_int n"
    using rb(1) by (simp only: of_int_le_iff)
  have hi: "(of_int (n + 1) :: real) \<le> of_int (1800000 * (2 * k + 1))"
    using rb(2) by (simp only: of_int_le_iff)
  have "\<exists>y. fl (of_int n / 1000) = Finite y \<and> of_int (3600 * (2 * k - 1)) / 2 \<le> y
           \<and> y \<le> of_int (3600 * (2 * k + 1)) / 2 - pow2 (- int 10)"
  proof (rule window_step [where \<delta> = 1])
    show "of_int (3600 * (2 * k - 1)) / 2 * 1000 \<le> (of_int n :: real)" using lo by simp
    show "(of_int n :: real) \<le> of_int (3600 * (2 * k + 1)) / 2 * 1000 - 1"
      using hi by (simp add: add_divide_distrib)
    show "(1000::real) * pow2 (- int 10) \<le> 1" by (simp add: pow2_def)
    show "3600 * (2 * k + 1) * 2 ^ (10 - 1) < (2::int) ^ 53" using rb(1) assms(2) by simp
  qed (use rb in simp_all)
  then obtain y1 where y1: "fl (of_int n / 1000) = Finite y1"
      "of_int (3600 * (2 * k - 1)) / 2 \<le> y1"
      "y1 \<le> of_int (3600 * (2 * k + 1)) / 2 - pow2 (- int 10)"
    by auto
  have "\<exists>y. fl (y1 / 60) = Finite y \<and> of_int (60 * (2 * k - 1)) / 2 \<le> y
           \<and> y \<le> of_int (60 * (2 * k + 1)) / 2 - pow2 (- int 16)"
  proof (rule window_step [where \<delta> = "pow2 (- int 10)"])
    show "of_int (60 * (2 * k - 1)) / 2 * 60 \<le> y1" using y1(2) by simp
    show "y1 \<le> of_int (60 * (2 * k + 1)) / 2 * 60 - pow2 (- int 10)"
      using y1(3) by (simp add: add_divide_distrib)
    show "60 * pow2 (- int 16) \<le> pow2 (- int 10)" by (simp add: pow2_def)
    show "60 * (2 * k + 1) * 2 ^ (16 - 1) < (2::int) ^ 53" using rb(1) assms(2) by simp
  qed (use rb in simp_all)
  then obtain y2 where y2: "fl (y1 / 60) = Finite y2" "of_int (60 * (2 * k - 1)) / 2 \<le> y2"
      "y2 \<le> of_int (60 * (2 * k + 1)) / 2 - pow2 (- int 16)"
    by auto
  have "\<exists>y. fl (y2 / 60) = Finite y \<and> of_int (1 * (2 * k - 1)) / 2 \<le> y
           \<and> y \<le> of_int (1 * (2 * k + 1)) / 2 - pow2 (- int 22)"
  proof (rule window_step [where \<delta> = "pow2 (- int 16)"])
    show "of_int (1 * (2 * k - 1)) / 2 * 60 \<le> y2" using y2(2) by simp
    show "y2 \<le> of_int (1 * (2 * k + 1)) / 2 * 60 - pow2 (- int 16)"
      using y2(3) by (simp add: add_divide_distrib)
    show "60 * pow2 (- int 22) \<le> pow2 (- int 16)" by (simp add: pow2_def)
    show "1 * (2 * k + 1) * 2 ^ (22 - 1) < (2::int) ^ 53" using rb(1) assms(2) by simp
  qed (use rb in simp_all)
  then obtain y where y: "fl (y2 / 60) = Finite y" "of_int (2 * k - 1) / 2 \<le> y"
      "y \<le> of_int (2 * k + 1) / 2 - pow2 (- int 22)"
    by auto
  from floor_window [OF y(2,3)] y(1) y1(1) y2(1) show ?thesis by (simp add: kr)
qed

lemma day_exact:
  fixes n :: int
  assumes "0 \<le> n" and "n < 2 ^ 52"
  shows "Math_round
           (js_divide (js_divide (js_divide (js_divide (Finite (of_int n)) 1000) 60) 60) 24)
       = Finite (of_int (round (of_int n / 86400000 :: real)))"
proof -
  define k where "k = round (of_int n / of_int (2 * 43200000) :: real)"
  have kr: "k = round (of_int n / 86400000 :: real)" by (simp add: k_def)
  have rb: "43200000 * (2 * k - 1) \<le> n" "n + 1 \<le> 43200000 * (2 * k + 1)" "0 \<le> k"
    unfolding k_def using assms(1) by (rule round_bounds [rotated], simp)+
  have lo: "(of_int (43200000 * (2 * k - 1)) :: real) \<le> of_int n"
    using rb(1) by (simp only: of_int_le_iff)
  have hi: "(of_int (n + 1) :: real) \<le> of_int (43200000 * (2 * k + 1))"
    using rb(2) by (simp only: of_int_le_iff)
  have "\<exists>y. fl (of_int n / 1000) = Finite y \<and> of_int (86400 * (2 * k - 1)) / 2 \<le> y
           \<and> y \<le> of_int (86400 * (2 * k + 1)) / 2 - pow2 (- int 10)"
  proof (rule window_step [where \<delta> = 1])
    show "of_int (86400 * (2 * k - 1)) / 2 * 1000 \<le> (of_int n :: real)" using lo by simp
    show "(of_int n :: real) \<le> of_int (86400 * (2 * k + 1)) / 2 * 1000 - 1"
      using hi by (simp add: add_divide_distrib)
    show "(1000::real) * pow2 (- int 10) \<le> 1" by (simp add: pow2_def)
    show "86400 * (2 * k + 1) * 2 ^ (10 - 1) < (2::int) ^ 53" using rb(1) assms(2) by simp
  qed (use rb in simp_all)
  then obtain y1 where y1: "fl (of_int n / 1000) = Finite y1"
      "of_int (86400 * (2 * k - 1)) / 2 \<le> y1"
      "y1 \<le> of_int (86400 * (2 * k + 1)) / 2 - pow2 (- int 10)"
    by auto
  have "\<exists>y. fl (y1 / 60) = Finite y \<and> of_int (1440 * (2 * k - 1)) / 2 \<le> y
           \<and> y \<le> of_int (1440 * (2 * k + 1)) / 2 - pow2 (- int 16)"
  proof (rule window_step [where \<delta> = "pow2 (- int 10)"])
    show "of_int (1440 * (2 * k - 1)) / 2 * 60 \<le> y1" using y1(2) by simp
    show "y1 \<le> of_int (1440 * (2 * k + 1)) / 2 * 60 - pow2 (- int 10)"
      using y1(3) by (simp add: add_divide_distrib)
    show "60 * pow2 (- int 16) \<le> pow2 (- int 10)" by (simp add: pow2_def)
    show "1440 * (2 * k + 1) * 2 ^ (16 - 1) < (2::int) ^ 53" using rb(1) assms(2) by simp
  qed (use rb in simp_all)
  then obtain y2 where y2: "fl (y1 / 60) = Finite y2" "of_int (1440 * (2 * k - 1)) / 2 \<le> y2"
      "y2 \<le> of_int (1440 * (2 * k + 1)) / 2 - pow2 (- int 16)"
    by auto
  have "\<exists>y. fl (y2 / 60) = Finite y \<and> of_int (24 * (2 * k - 1)) / 2 \<le> y
           \<and> y \<le> of_int (24 * (2 * k + 1)) / 2 - pow2 (- int 22)"
  proof (rule window_step [where \<delta> = "pow2 (- int 16)"])
    show "of_int (24 * (2 * k - 1)) / 2 * 60 \<le> y2" using y2(2) by simp
    show "y2 \<le> of_int (24 * (2 * k + 1)) / 2 * 60 - pow2 (- int 16)"
      using y2(3) by (simp add: add_divide_distrib)
    show "60 * pow2 (- int 22) \<le> pow2 (- int 16)" by (simp add: pow2_def)
    show "24 * (2 * k + 1) * 2 ^ (22 - 1) < (2::int) ^ 53" using rb(1) assms(2) by simp
  qed (use rb in simp_all)
  then obtain y3 where y3: "fl (y2 / 60) = Finite y3" "of_int (24 * (2 * k - 1)) / 2 \<le> y3"
      "y3 \<le> of_int (24 * (2 * k + 1)) / 2 - pow2 (- int 22)"
    by auto
  have "\<exists>y. fl (y3 / 24) = Finite y \<and> of_int (1 * (2 * k - 1)) / 2 \<le> y
           \<and> y \<le> of_int (1 * (2 * k + 1)) / 2 - pow2 (- int 27)"
  proof (rule window_step [where \<delta> = "pow2 (- int 22)"])
    show "of_int (1 * (2 * k - 1)) / 2 * 24 \<le> y3" using y3(2) by simp
    show "y3 \<le> of_int (1 * (2 * k + 1)) / 2 * 24 - pow2 (- int 22)"
      using y3(3) by (simp add: add_divide_distrib)
    show "24 * pow2 (- int 27) \<le> pow2 (- int 22)" by (simp add: pow2_def)
    show "1 * (2 * k + 1) * 2 ^ (27 - 1) < (2::int) ^ 53" using rb(1) assms(2) by simp
  qed (use rb in simp_all)
  then obtain y where y: "fl (y3 / 24) = Finite y" "of_int (2 * k - 1) / 2 \<le> y"
      "y \<le> of_int (2 * k + 1) / 2 - pow2 (- int 27)"
    by auto
  from floor_window [OF y(2,3)] y(1) y1(1) y2(1) y3(1) show ?thesis by (simp add: kr)
qed

subsection \<open>The payload\<close>

lemma payload_fields:
  assumes "js_get v ''timeUnit'' = Inr (JString (TimeUnit_value u))"
    and "js_get v ''timespan'' = Inr (JNumber ms)"
  shows "payload \<lparr>inner = v\<rparr> = Some (double_table u ms)"
  using assms by (cases u) (simp_all add: payload_def)

lemma payload_timespan_object:
  "payload \<lparr>inner = timespan_object e u\<rparr> = Some (double_table u e)"
  by (rule payload_fields) (simp_all add: timespan_object_def)

lemma double_table_times:
  assumes "u = Nanosecond \<or> u = Microsecond" and "is_double (conversion_table u ms)"
  shows "double_table u ms = Finite (conversion_table u ms)"
  using assms by (auto simp: fl_is_double)

lemma double_table_whole:
  fixes n :: int
  assumes "u = Second \<or> u = Minute \<or> u = Hour \<or> u = Day" and "0 \<le> n" and "n < 2 ^ 52"
  shows "double_table u (of_int n) = Finite (conversion_table u (of_int n))"
proof -
  have d: "fl (of_int n / 1000) = js_divide (Finite (of_int n)) 1000" by simp
  from assms(1) show ?thesis
  proof (elim disjE)
    assume "u = Second"
    then show ?thesis
      using second_exact [OF assms(2,3)] by (simp del: js_divide.simps add: d)
  next
    assume "u = Minute"
    then show ?thesis
      using minute_exact [OF assms(2,3)] by (simp del: js_divide.simps add: d)
  next
    assume "u = Hour"
    then show ?thesis
      using hour_exact [OF assms(2,3)] by (simp del: js_divide.simps add: d)
  next
    assume "u = Day"
    then show ?thesis
      using day_exact [OF assms(2,3)] by (simp del: js_divide.simps add: d)
  qed
qed

text \<open>Three roundings at explicit arguments.\<close>

lemma fl_eval_nanosecond: "fl (9007199254740991 * 1000000) = Finite 9007199254740990951424"
proof -
  have "pow2 72 \<le> \<bar>9007199254740991 * 1000000 :: real\<bar>"
    "\<bar>9007199254740991 * 1000000 :: real\<bar> < pow2 (72 + 1)"
    by (simp_all add: pow2_def)
  from fl_eval [OF this] show ?thesis
    by (simp add: pow2_def round_half_even_def Let_def)
qed

lemma fl_eval_overflow: "fl (2 ^ 1010 * 1000000) = PosInfinity"
proof -
  have "pow2 1029 \<le> \<bar>2 ^ 1010 * 1000000 :: real\<bar>"
    "\<bar>2 ^ 1010 * 1000000 :: real\<bar> < pow2 (1029 + 1)"
    by (simp_all add: pow2_def)
  from fl_eval [OF this] show ?thesis
    by (simp add: pow2_def round_half_even_def Let_def)
qed

lemma fl_eval_second: "fl (2 ^ 70 / 1000) = Finite 1180591620717411328"
proof -
  have "pow2 60 \<le> \<bar>2 ^ 70 / 1000 :: real\<bar>" "\<bar>2 ^ 70 / 1000 :: real\<bar> < pow2 (60 + 1)"
    by (simp_all add: pow2_def)
  from fl_eval [OF this] show ?thesis
    by (simp add: pow2_def round_half_even_def Let_def)
qed

subsection \<open>Reading back\<close>

lemma testGetValue_valid:
  assumes "metricsDatabase w p = Some v" and "valid_DurationRecord v"
  shows "testGetValue (Some p) w = (Inr (payload \<lparr>inner = v\<rparr>), w)"
proof -
  obtain fs where "v = JObject fs"
    using assms(2) by (cases v) simp_all
  then have "truthy v" by simp
  then show ?thesis
    using assms by (simp add: testGetValue_def getMetric_def fetch_def new_TimespanMetric_eq)
qed

lemma testGetValue_default:
  "sendInPings (metric w) = p # ps \<Longrightarrow> testGetValue None w = testGetValue (Some p) w"
  by (simp add: testGetValue_def)

lemma testGetValue_no_ping:
  "sendInPings (metric w) = [] \<Longrightarrow> testGetValue None w = (Inr None, w)"
  by (simp add: testGetValue_def getMetric_def)

lemma testGetValue_absent:
  "metricsDatabase w p = None \<Longrightarrow> testGetValue (Some p) w = (Inr None, w)"
  by (simp add: testGetValue_def getMetric_def fetch_def)

lemma testGetValue_snd: "snd (testGetValue ping w) = w"
  by (auto simp: testGetValue_def getMetric_def Let_def split: option.splits list.splits sum.splits)

lemma testGetValue_reads:
  assumes "metricsDatabase w' = metricsDatabase w"
    and "sendInPings (metric w') = sendInPings (metric w)"
  shows "fst (testGetValue ping w') = fst (testGetValue ping w)"
  using assms
  by (auto simp: testGetValue_def getMetric_def Let_def split: option.splits list.splits sum.splits)

subsection \<open>start on a recording metric\<close>

lemma start_recording:
  assumes "shouldRecord (metric w) (uploadEnabled w)"
  shows "shouldRecord (metric (start t w)) (uploadEnabled (start t w))"
    and "startTime (metric (start t w)) = Some (running_since t w)"
    and "sendInPings (metric (start t w)) = sendInPings (metric w)"
    and "timeUnit (metric (start t w)) = timeUnit (metric w)"
    and "metricsDatabase (start t w) = metricsDatabase w"
  using assms
  by (cases "startTime (metric w)";
      simp add: start_def isUndefined_def set_startTime_def console_error_def shouldRecord_def
        running_since_def)+

section \<open>The claims\<close>

subsection \<open>C1: the first recorded value wins\<close>

text \<open>
  It is not the first \<^verbatim>\<open>stop()\<close> of every sequence whose value is read back. With a
  clock that goes back (\<^verbatim>\<open>start()\<close> at 10, \<^verbatim>\<open>stop()\<close> at 5) the first \<^verbatim>\<open>stop()\<close> records
  nothing, and the 10 milliseconds of the second (\<^verbatim>\<open>start()\<close> at 20, \<^verbatim>\<open>stop()\<close> at 30) are
  stored and read back. With a valid record of 7 milliseconds stored before, neither
  \<^verbatim>\<open>stop()\<close> records and 7 is read back.
\<close>

theorem first_write_wins_counterexample:
  "run [Start 10, Stop 5, Start 20, Stop 30] fresh
     = Inr (fresh\<lparr>metricsDatabase := [''metrics'' \<mapsto> timespan_object 10 Millisecond],
                 console := [''Timespan was negative.'']\<rparr>)
   \<and> testGetValue (Some ''metrics'')
         (fresh\<lparr>metricsDatabase := [''metrics'' \<mapsto> timespan_object 10 Millisecond],
                 console := [''Timespan was negative.'']\<rparr>)
     = (Inr (Some (Finite 10)),
        fresh\<lparr>metricsDatabase := [''metrics'' \<mapsto> timespan_object 10 Millisecond],
                 console := [''Timespan was negative.'']\<rparr>)
   \<and> run [Start 100, Stop 340, Start 500, Stop 900]
         (fresh\<lparr>metricsDatabase := [''metrics'' \<mapsto> timespan_object 7 Millisecond]\<rparr>)
     = Inr (fresh\<lparr>metricsDatabase := [''metrics'' \<mapsto> timespan_object 7 Millisecond],
                 console := [''Timespan value already recorded. New value discarded.'',
                             ''Timespan value already recorded. New value discarded.'']\<rparr>)
   \<and> testGetValue (Some ''metrics'')
         (fresh\<lparr>metricsDatabase := [''metrics'' \<mapsto> timespan_object 7 Millisecond],
                 console := [''Timespan value already recorded. New value discarded.'',
                             ''Timespan value already recorded. New value discarded.'']\<rparr>)
     = (Inr (Some (Finite 7)),
        fresh\<lparr>metricsDatabase := [''metrics'' \<mapsto> timespan_object 7 Millisecond],
                 console := [''Timespan value already recorded. New value discarded.'',
                             ''Timespan value already recorded. New value discarded.'']\<rparr>)"
proof (intro conjI)
  have v: "valid_DurationRecord (timespan_object 10 Millisecond)"
    "valid_DurationRecord (timespan_object 7 Millisecond)"
    by (simp_all add: valid_timespan_object)
  show "run [Start 10, Stop 5, Start 20, Stop 30] fresh
     = Inr (fresh\<lparr>metricsDatabase := [''metrics'' \<mapsto> timespan_object 10 Millisecond],
                 console := [''Timespan was negative.'']\<rparr>)"
    by (simp add: fresh_def start_def stop_def shouldRecord_def isUndefined_def
        set_startTime_def console_error_def Let_def transformFn_def new_TimespanMetric_eq
        fetch_def persist_def valid_timespan_object)
  show "run [Start 100, Stop 340, Start 500, Stop 900]
         (fresh\<lparr>metricsDatabase := [''metrics'' \<mapsto> timespan_object 7 Millisecond]\<rparr>)
     = Inr (fresh\<lparr>metricsDatabase := [''metrics'' \<mapsto> timespan_object 7 Millisecond],
                 console := [''Timespan value already recorded. New value discarded.'',
                             ''Timespan value already recorded. New value discarded.'']\<rparr>)"
    by (simp add: fresh_def start_def stop_def shouldRecord_def isUndefined_def
        set_startTime_def console_error_def Let_def transformFn_def new_TimespanMetric_eq
        fetch_def persist_def valid_timespan_object)
  show "testGetValue (Some ''metrics'')
         (fresh\<lparr>metricsDatabase := [''metrics'' \<mapsto> timespan_object 10 Millisecond],
                 console := [''Timespan was negative.'']\<rparr>)
     = (Inr (Some (Finite 10)),
        fresh\<lparr>metricsDatabase := [''metrics'' \<mapsto> timespan_object 10 Millisecond],
                 console := [''Timespan was negative.'']\<rparr>)"
    by (subst testGetValue_valid [where v = "timespan_object 10 Millisecond"])
      (simp_all add: v payload_timespan_object)
  show "testGetValue (Some ''metrics'')
         (fresh\<lparr>metricsDatabase := [''metrics'' \<mapsto> timespan_object 7 Millisecond],
                 console := [''Timespan value already recorded. New value discarded.'',
                             ''Timespan value already recorded. New value discarded.'']\<rparr>)
     = (Inr (Some (Finite 7)),
        fresh\<lparr>metricsDatabase := [''metrics'' \<mapsto> timespan_object 7 Millisecond],
                 console := [''Timespan value already recorded. New value discarded.'',
                             ''Timespan value already recorded. New value discarded.'']\<rparr>)"
    by (subst testGetValue_valid [where v = "timespan_object 7 Millisecond"])
      (simp_all add: v payload_timespan_object)
qed

text \<open>
  Claim C1, amended. In every invocation of the merge function that \<^verbatim>\<open>stop()\<close> passes to
  the storage transform (\<^verbatim>\<open>stop\<close> builds it for an elapsed time that is not negative
  only): when the stored value validates, the stored value is returned unchanged and
  \<^verbatim>\<open>reportValueExists\<close> is set; when the stored value is absent or invalid, the function
  returns a new record with the unit of the metric and the elapsed milliseconds.
  Consequently a valid record that the first \<^verbatim>\<open>start(); stop()\<close> leaves under a
  destination is still there after any later calls. And when the first \<^verbatim>\<open>stop()\<close>
  records (the metric records, the stop time \<open>t2\<close> is not earlier than the start time in
  force, and no valid record is stored under the destination \<open>p\<close> of the metric), then
  after any further calls \<open>cs\<close> (a second \<^verbatim>\<open>start(); stop()\<close> is one such) the value stored
  and read back under \<open>p\<close> is that of the first \<^verbatim>\<open>stop()\<close>.
\<close>

theorem first_write_wins:
  "(validate old = Inr True \<longrightarrow>
      transformFn elapsed old env = (Inr \<lparr>inner = old\<rparr>, env\<lparr>reportValueExists := True\<rparr>))
   \<and> (validate old \<noteq> Inr True \<and> 0 \<le> elapsed \<longrightarrow>
        transformFn elapsed old env =
          (Inr \<lparr>inner = timespan_object elapsed (timeUnit (metric (global env)))\<rparr>, env))
   \<and> (\<exists>w2 w'. stop t2 (start t1 w) = Inr w2 \<and> run (Start t1 # Stop t2 # cs) w = Inr w'
          \<and> (validate (fetch (metricsDatabase w2) q) = Inr True \<longrightarrow>
                metricsDatabase w' q = metricsDatabase w2 q))
   \<and> (shouldRecord (metric w) (uploadEnabled w) \<and> running_since t1 w \<le> t2
        \<and> p \<in> set (sendInPings (metric w))
        \<and> validate (fetch (metricsDatabase w) p) \<noteq> Inr True \<longrightarrow>
        (\<exists>w'. run (Start t1 # Stop t2 # cs) w = Inr w'
           \<and> metricsDatabase w' p
               = Some (timespan_object (t2 - running_since t1 w) (timeUnit (metric w)))
           \<and> testGetValue (Some p) w' =
               (Inr (payload
                       \<lparr>inner = timespan_object (t2 - running_since t1 w)
                                  (timeUnit (metric w))\<rparr>), w')))"
proof (intro conjI impI)
  assume "validate old = Inr True"
  then show "transformFn elapsed old env = (Inr \<lparr>inner = old\<rparr>, env\<lparr>reportValueExists := True\<rparr>)"
    by (simp add: validate_True_iff transformFn_valid)
next
  assume "validate old \<noteq> Inr True \<and> 0 \<le> elapsed"
  then show "transformFn elapsed old env =
      (Inr \<lparr>inner = timespan_object elapsed (timeUnit (metric (global env)))\<rparr>, env)"
    by (simp add: validate_True_iff transformFn_invalid new_TimespanMetric_eq
        valid_timespan_object)
next
  obtain w2 where w2: "stop t2 (start t1 w) = Inr w2"
    using stop_keeps [of t2 "start t1 w"] by blast
  obtain w' where w': "run cs w2 = Inr w'"
      "\<forall>q. valid_DurationRecord (fetch (metricsDatabase w2) q) \<longrightarrow>
             metricsDatabase w' q = metricsDatabase w2 q"
    using run_keeps [of cs w2] by blast
  have "run (Start t1 # Stop t2 # cs) w = Inr w'"
    using w2 w'(1) by simp
  with w2 w'(2) show "\<exists>w2 w'. stop t2 (start t1 w) = Inr w2
      \<and> run (Start t1 # Stop t2 # cs) w = Inr w'
      \<and> (validate (fetch (metricsDatabase w2) q) = Inr True \<longrightarrow>
            metricsDatabase w' q = metricsDatabase w2 q)"
    by (auto simp: validate_True_iff)
next
  assume a: "shouldRecord (metric w) (uploadEnabled w) \<and> running_since t1 w \<le> t2
        \<and> p \<in> set (sendInPings (metric w))
        \<and> validate (fetch (metricsDatabase w) p) \<noteq> Inr True"
  let ?u = "timeUnit (metric w)"
  let ?s = "running_since t1 w"
  let ?r = "timespan_object (t2 - ?s) ?u"
  let ?w1 = "start t1 w"
  from a have rec: "shouldRecord (metric w) (uploadEnabled w)" by simp
  note w1 = start_recording [OF rec, of t1]
  from a have "?s \<le> t2" by simp
  from stop_records [OF w1(1,2) this] obtain w2 where w2: "stop t2 ?w1 = Inr w2"
      "\<forall>q. metricsDatabase w2 q =
            (if q \<in> set (sendInPings (metric ?w1))
             then Some (merged (t2 - ?s) (timeUnit (metric ?w1)) (fetch (metricsDatabase ?w1) q))
             else metricsDatabase ?w1 q)"
    by blast
  have db2: "metricsDatabase w2 p = Some ?r"
    using a w2(2) w1(3-5) by (simp add: merged_def validate_True_iff)
  have r: "valid_DurationRecord ?r"
    using a by (simp add: valid_timespan_object)
  obtain w' where w': "run cs w2 = Inr w'"
      "\<forall>q. valid_DurationRecord (fetch (metricsDatabase w2) q) \<longrightarrow>
             metricsDatabase w' q = metricsDatabase w2 q"
    using run_keeps [of cs w2] by blast
  have db': "metricsDatabase w' p = Some ?r"
    using w'(2) db2 r by (simp add: fetch_def)
  have "run (Start t1 # Stop t2 # cs) w = Inr w'"
    using w2(1) w'(1) by simp
  moreover have "testGetValue (Some p) w' = (Inr (payload \<lparr>inner = ?r\<rparr>), w')"
    using db' r by (rule testGetValue_valid)
  ultimately show "\<exists>w'. run (Start t1 # Stop t2 # cs) w = Inr w'
           \<and> metricsDatabase w' p = Some ?r
           \<and> testGetValue (Some p) w' = (Inr (payload \<lparr>inner = ?r\<rparr>), w')"
    using db' by blast
qed

text \<open>
  The merge function at a valid stored record and at an absent one, and the end-to-end
  scenario of the specification followed by a second measurement: \<^verbatim>\<open>start()\<close> at 100,
  \<^verbatim>\<open>stop()\<close> at 340, \<^verbatim>\<open>start()\<close> at 500, \<^verbatim>\<open>stop()\<close> at 900 leave 240 to be read.
\<close>

theorem first_write_wins_witness:
  "transformFn 240 (timespan_object 7 Second) \<lparr>global = fresh, reportValueExists = False\<rparr>
     = (Inr \<lparr>inner = timespan_object 7 Second\<rparr>, \<lparr>global = fresh, reportValueExists = True\<rparr>)
   \<and> transformFn 240 JUndefined \<lparr>global = fresh, reportValueExists = False\<rparr>
     = (Inr \<lparr>inner = timespan_object 240 Millisecond\<rparr>,
        \<lparr>global = fresh, reportValueExists = False\<rparr>)
   \<and> (\<exists>w'. run [Start 100, Stop 340, Start 500, Stop 900] fresh = Inr w'
         \<and> metricsDatabase w' ''metrics'' = Some (timespan_object 240 Millisecond)
         \<and> testGetValue (Some ''metrics'') w' = (Inr (Some (Finite 240)), w'))"
proof -
  let ?env = "\<lparr>global = fresh, reportValueExists = False\<rparr>"
  have v: "validate (timespan_object 7 Second) = Inr True"
    by (simp add: validate_valid valid_timespan_object)
  have u: "validate JUndefined \<noteq> Inr True \<and> (0::real) \<le> 240"
    by (simp add: validate_valid)
  have f: "shouldRecord (metric fresh) (uploadEnabled fresh) \<and> running_since 100 fresh \<le> 340
      \<and> ''metrics'' \<in> set (sendInPings (metric fresh))
      \<and> validate (fetch (metricsDatabase fresh) ''metrics'') \<noteq> Inr True"
    by (simp add: fresh_def shouldRecord_def fetch_def validate_valid running_since_def)
  have s: "running_since 100 fresh = 100"
    by (simp add: fresh_def running_since_def)
  have "transformFn 240 (timespan_object 7 Second) ?env
      = (Inr \<lparr>inner = timespan_object 7 Second\<rparr>, ?env\<lparr>reportValueExists := True\<rparr>)"
    by (rule first_write_wins [of "timespan_object 7 Second" 240 ?env, THEN conjunct1,
          rule_format, OF v])
  moreover have "transformFn 240 JUndefined ?env
      = (Inr \<lparr>inner = timespan_object 240 (timeUnit (metric (global ?env)))\<rparr>, ?env)"
    by (rule first_write_wins [of JUndefined 240 ?env, THEN conjunct2, THEN conjunct1,
          rule_format, OF u])
  moreover have "\<exists>w'. run (Start 100 # Stop 340 # [Start 500, Stop 900]) fresh = Inr w'
      \<and> metricsDatabase w' ''metrics''
          = Some (timespan_object (340 - running_since 100 fresh) (timeUnit (metric fresh)))
      \<and> testGetValue (Some ''metrics'') w'
          = (Inr (payload \<lparr>inner = timespan_object (340 - running_since 100 fresh)
                                    (timeUnit (metric fresh))\<rparr>), w')"
    by (rule first_write_wins [of _ _ _ 340 100 fresh "[Start 500, Stop 900]" _ "''metrics''",
          THEN conjunct2, THEN conjunct2, THEN conjunct2, rule_format, OF f])
  ultimately show ?thesis
    by (simp add: s payload_timespan_object) (simp add: fresh_def)
qed

subsection \<open>C2: what the merge function changes\<close>

text \<open>
  The merge function is not free of side effects: at a stored value that is a valid
  record it sets the variable \<^verbatim>\<open>reportValueExists\<close> of the enclosing task, which was
  \<^verbatim>\<open>false\<close>, to \<^verbatim>\<open>true\<close>.
\<close>

theorem transformFn_not_pure_counterexample:
  "snd (transformFn 240 (timespan_object 7 Second) \<lparr>global = fresh, reportValueExists = False\<rparr>)
     = \<lparr>global = fresh, reportValueExists = True\<rparr>
   \<and> \<lparr>global = fresh, reportValueExists = True\<rparr> \<noteq> \<lparr>global = fresh, reportValueExists = False\<rparr>"
  by (simp add: transformFn_valid valid_timespan_object)

text \<open>
  Claim C2, amended. Besides its return value the merge function has one effect: it sets
  the variable \<^verbatim>\<open>reportValueExists\<close> of the enclosing task when the stored value is a
  valid record. It changes nothing else (no field of the metric, no stored value, no
  other variable), and nothing at all when the stored value is absent or invalid.
\<close>

theorem transformFn_frame:
  "snd (transformFn elapsed old env) =
     env\<lparr>reportValueExists := reportValueExists env \<or> validate old = Inr True\<rparr>
   \<and> global (snd (transformFn elapsed old env)) = global env
   \<and> (validate old \<noteq> Inr True \<longrightarrow> snd (transformFn elapsed old env) = env)"
proof (cases "valid_DurationRecord old")
  case True
  then show ?thesis by (simp add: transformFn_valid validate_True_iff)
next
  case False
  then show ?thesis by (simp add: transformFn_invalid validate_True_iff)
qed

text \<open>The merge function at an absent value and at a valid record.\<close>

theorem transformFn_frame_witness:
  "snd (transformFn 240 JUndefined \<lparr>global = fresh, reportValueExists = False\<rparr>)
     = \<lparr>global = fresh, reportValueExists = False\<rparr>
   \<and> global (snd (transformFn 240 (timespan_object 7 Second)
                  \<lparr>global = fresh, reportValueExists = False\<rparr>)) = fresh"
proof -
  have "validate JUndefined \<noteq> Inr True"
    by (simp add: validate_valid)
  then show ?thesis
    using transformFn_frame [of 240 JUndefined "\<lparr>global = fresh, reportValueExists = False\<rparr>"]
      transformFn_frame [of 240 "timespan_object 7 Second"
        "\<lparr>global = fresh, reportValueExists = False\<rparr>"]
    by simp
qed

subsection \<open>C3: what the validator accepts\<close>

text \<open>
  Claim C3. For every value \<open>v\<close>, \<^verbatim>\<open>validate(v)\<close> returns \<^verbatim>\<open>true\<close> if and only if \<open>v\<close> is an
  object with exactly two fields, whose unit field \<^verbatim>\<open>timeUnit\<close> is a string equal to one of
  the seven values of \<^verbatim>\<open>TimeUnit\<close> and whose magnitude field \<^verbatim>\<open>timespan\<close> is a number that
  is at least 0; for every other value it returns \<^verbatim>\<open>false\<close>, and it never throws.
\<close>

theorem validate_characterization:
  "validate v = Inr (valid_DurationRecord v)
   \<and> (valid_DurationRecord v \<longleftrightarrow>
       (\<exists>fs s n. v = JObject fs \<and> card (dom (map_of fs)) = 2
          \<and> map_of fs ''timeUnit'' = Some (JString s) \<and> s \<in> set TimeUnit_strings
          \<and> map_of fs ''timespan'' = Some (JNumber n) \<and> 0 \<le> n))
   \<and> (\<forall>e. validate v \<noteq> Inl e)"
  using valid_DurationRecord_iff [of v] by (simp add: validate_valid)

text \<open>
  The validator at a valid record and at values that are invalid for a negative
  magnitude, an unknown unit, a missing field, a third field, fields of the wrong types,
  and at \<^verbatim>\<open>undefined\<close>.
\<close>

theorem validate_characterization_witness:
  "validate (JObject [(''timeUnit'', JString ''second''), (''timespan'', JNumber 61500)])
     = Inr True
   \<and> validate (JObject [(''timeUnit'', JString ''second''), (''timespan'', JNumber (- 1))])
     = Inr False
   \<and> validate (JObject [(''timeUnit'', JString ''fortnight''), (''timespan'', JNumber 1)])
     = Inr False
   \<and> validate (JObject [(''timeUnit'', JString ''second'')]) = Inr False
   \<and> validate (JObject [(''timeUnit'', JString ''second''), (''timespan'', JNumber 1),
        (''x'', JNull)]) = Inr False
   \<and> validate (JObject [(''timeUnit'', JNumber 1), (''timespan'', JString ''second'')])
     = Inr False
   \<and> validate JUndefined = Inr False"
  using
    validate_characterization
      [of "JObject [(''timeUnit'', JString ''second''), (''timespan'', JNumber 61500)]"]
    validate_characterization
      [of "JObject [(''timeUnit'', JString ''second''), (''timespan'', JNumber (- 1))]"]
    validate_characterization
      [of "JObject [(''timeUnit'', JString ''fortnight''), (''timespan'', JNumber 1)]"]
    validate_characterization [of "JObject [(''timeUnit'', JString ''second'')]"]
    validate_characterization
      [of "JObject [(''timeUnit'', JString ''second''), (''timespan'', JNumber 1),
             (''x'', JNull)]"]
    validate_characterization
      [of "JObject [(''timeUnit'', JNumber 1), (''timespan'', JString ''second'')]"]
    validate_characterization [of JUndefined]
  by (simp add: TimeUnit_strings_def)

subsection \<open>C4: the shape of the persisted record\<close>

text \<open>
  The magnitude of a persisted record is not under the name \<^verbatim>\<open>durationMillis\<close>: the
  validator accepts a record that has \<^verbatim>\<open>timeUnit\<close> and \<^verbatim>\<open>timespan\<close> and no field
  \<^verbatim>\<open>durationMillis\<close>, rejects the record that has \<^verbatim>\<open>timeUnit\<close> and \<^verbatim>\<open>durationMillis\<close>, and
  the record that the merge function constructs has no field \<^verbatim>\<open>durationMillis\<close>.
\<close>

theorem record_shape_counterexample:
  "validate (JObject [(''timeUnit'', JString ''millisecond''), (''timespan'', JNumber 240)])
     = Inr True
   \<and> js_in ''durationMillis''
        (JObject [(''timeUnit'', JString ''millisecond''), (''timespan'', JNumber 240)])
     = Inr False
   \<and> validate (JObject [(''timeUnit'', JString ''millisecond''), (''durationMillis'', JNumber 240)])
     = Inr False
   \<and> fst (transformFn 240 JUndefined \<lparr>global = fresh, reportValueExists = False\<rparr>)
     = Inr \<lparr>inner = JObject [(''timespan'', JNumber 240), (''timeUnit'', JString ''millisecond'')]\<rparr>
   \<and> js_in ''durationMillis''
        (JObject [(''timespan'', JNumber 240), (''timeUnit'', JString ''millisecond'')])
     = Inr False"
  by (simp add: validate_valid TimeUnit_strings_def transformFn_invalid new_TimespanMetric_eq
      valid_timespan_object fresh_def)
    (simp add: timespan_object_def)

text \<open>
  Claim C4, amended. The persisted record has exactly the two fields named \<^verbatim>\<open>timeUnit\<close>
  and \<^verbatim>\<open>timespan\<close>: every value that the validator accepts has these two fields and no
  other (in particular no field \<^verbatim>\<open>durationMillis\<close>), with a unit string of the enumeration
  under \<^verbatim>\<open>timeUnit\<close> and its magnitude, a number that is not negative, under
  \<^verbatim>\<open>timespan\<close>; and every record that the merge function of \<^verbatim>\<open>stop()\<close> constructs
  carries the elapsed milliseconds under \<^verbatim>\<open>timespan\<close> and the unit of the metric under
  \<^verbatim>\<open>timeUnit\<close>.
\<close>

theorem record_shape:
  "(validate v = Inr True \<longrightarrow>
      (\<exists>fs s n. v = JObject fs \<and> fst ` set fs = {''timeUnit'', ''timespan''}
         \<and> map_of fs ''timeUnit'' = Some (JString s) \<and> s \<in> set TimeUnit_strings
         \<and> map_of fs ''timespan'' = Some (JNumber n) \<and> 0 \<le> n
         \<and> js_in ''durationMillis'' v = Inr False))
   \<and> (validate old \<noteq> Inr True \<and> 0 \<le> elapsed \<longrightarrow>
        fst (transformFn elapsed old env) =
          Inr \<lparr>inner = JObject [(''timespan'', JNumber elapsed),
                  (''timeUnit'', JString (TimeUnit_value (timeUnit (metric (global env)))))]\<rparr>)"
proof (intro conjI impI)
  assume "validate v = Inr True"
  then have "valid_DurationRecord v" by (simp add: validate_True_iff)
  from valid_DurationRecord_keys [OF this] obtain fs s n where
    v: "v = JObject fs" and k: "fst ` set fs = {''timeUnit'', ''timespan''}"
     and u: "map_of fs ''timeUnit'' = Some (JString s)" "s \<in> set TimeUnit_strings"
     and m: "map_of fs ''timespan'' = Some (JNumber n)" "0 \<le> n"
    by (elim exE conjE)
  have "''durationMillis'' \<notin> fst ` set fs"
    unfolding k by (rule absent_key)
  then have "map_of fs ''durationMillis'' = None"
    by (simp only: map_of_eq_None_iff not_False_eq_True)
  then have "js_in ''durationMillis'' v = Inr False"
    unfolding v by simp
  with v k u m show "\<exists>fs s n. v = JObject fs \<and> fst ` set fs = {''timeUnit'', ''timespan''}
         \<and> map_of fs ''timeUnit'' = Some (JString s) \<and> s \<in> set TimeUnit_strings
         \<and> map_of fs ''timespan'' = Some (JNumber n) \<and> 0 \<le> n
         \<and> js_in ''durationMillis'' v = Inr False"
    by (intro exI [of _ fs] exI [of _ s] exI [of _ n] conjI)
next
  assume a: "validate old \<noteq> Inr True \<and> 0 \<le> elapsed"
  then have "transformFn elapsed old env =
      (Inr \<lparr>inner = timespan_object elapsed (timeUnit (metric (global env)))\<rparr>, env)"
    by (simp add: validate_True_iff transformFn_invalid new_TimespanMetric_eq
        valid_timespan_object)
  then show "fst (transformFn elapsed old env) =
          Inr \<lparr>inner = JObject [(''timespan'', JNumber elapsed),
                  (''timeUnit'', JString (TimeUnit_value (timeUnit (metric (global env)))))]\<rparr>"
    by (simp add: timespan_object_def)
qed

text \<open>An accepted record, and the record constructed over a stored \<^verbatim>\<open>null\<close>.\<close>

theorem record_shape_witness:
  "(\<exists>fs s n. JObject [(''timeUnit'', JString ''millisecond''), (''timespan'', JNumber 240)]
          = JObject fs
        \<and> fst ` set fs = {''timeUnit'', ''timespan''}
        \<and> map_of fs ''timeUnit'' = Some (JString s) \<and> s \<in> set TimeUnit_strings
        \<and> map_of fs ''timespan'' = Some (JNumber n) \<and> 0 \<le> n
        \<and> js_in ''durationMillis''
             (JObject [(''timeUnit'', JString ''millisecond''), (''timespan'', JNumber 240)])
           = Inr False)
   \<and> fst (transformFn 240 JNull \<lparr>global = fresh, reportValueExists = False\<rparr>)
     = Inr \<lparr>inner = JObject [(''timespan'', JNumber 240), (''timeUnit'', JString ''millisecond'')]\<rparr>"
proof (rule conjI)
  let ?v = "JObject [(''timeUnit'', JString ''millisecond''), (''timespan'', JNumber 240)]"
  have v: "validate ?v = Inr True"
    by (simp add: validate_valid TimeUnit_strings_def)
  show "\<exists>fs s n. ?v = JObject fs \<and> fst ` set fs = {''timeUnit'', ''timespan''}
         \<and> map_of fs ''timeUnit'' = Some (JString s) \<and> s \<in> set TimeUnit_strings
         \<and> map_of fs ''timespan'' = Some (JNumber n) \<and> 0 \<le> n
         \<and> js_in ''durationMillis'' ?v = Inr False"
    by (rule record_shape [of ?v, THEN conjunct1, rule_format, OF v])
next
  let ?env = "\<lparr>global = fresh, reportValueExists = False\<rparr>"
  have n: "validate JNull \<noteq> Inr True \<and> (0::real) \<le> 240"
    by (simp add: validate_valid)
  have "fst (transformFn 240 JNull ?env)
     = Inr \<lparr>inner = JObject [(''timespan'', JNumber 240),
        (''timeUnit'', JString (TimeUnit_value (timeUnit (metric (global ?env)))))]\<rparr>"
    by (rule record_shape [of _ JNull 240 ?env, THEN conjunct2, rule_format, OF n])
  then show "fst (transformFn 240 JNull ?env)
     = Inr \<lparr>inner = JObject [(''timespan'', JNumber 240), (''timeUnit'', JString ''millisecond'')]\<rparr>"
    by (simp add: fresh_def)
qed

subsection \<open>C5: the payload\<close>

text \<open>
  The payload is not the exact product or the rounded exact quotient for every valid
  record. For \<open>2\<^sup>5\<^sup>3 - 1\<close> milliseconds in nanoseconds the code returns the double
  9007199254740990951424, not 9007199254740991000000; for \<open>2\<^sup>1\<^sup>0\<^sup>1\<^sup>0\<close> milliseconds in
  nanoseconds it returns \<^verbatim>\<open>Infinity\<close>; for \<open>2\<^sup>7\<^sup>0\<close> milliseconds in seconds it returns
  1180591620717411328, where the exact quotient rounds to 1180591620717411303.
\<close>

theorem payload_conversion_table_counterexample:
  "validate (timespan_object 9007199254740991 Nanosecond) = Inr True
   \<and> payload \<lparr>inner = timespan_object 9007199254740991 Nanosecond\<rparr>
       = Some (Finite 9007199254740990951424)
   \<and> conversion_table Nanosecond 9007199254740991 = 9007199254740991000000
   \<and> validate (timespan_object (2 ^ 1010) Nanosecond) = Inr True
   \<and> payload \<lparr>inner = timespan_object (2 ^ 1010) Nanosecond\<rparr> = Some PosInfinity
   \<and> validate (timespan_object (2 ^ 70) Second) = Inr True
   \<and> payload \<lparr>inner = timespan_object (2 ^ 70) Second\<rparr> = Some (Finite 1180591620717411328)
   \<and> conversion_table Second (2 ^ 70) = 1180591620717411303"
proof (intro conjI)
  show "validate (timespan_object 9007199254740991 Nanosecond) = Inr True"
    by (simp add: validate_valid valid_timespan_object)
  show "validate (timespan_object (2 ^ 1010) Nanosecond) = Inr True"
    by (simp add: validate_valid valid_timespan_object)
  show "validate (timespan_object (2 ^ 70) Second) = Inr True"
    by (simp add: validate_valid valid_timespan_object)
  show "payload \<lparr>inner = timespan_object 9007199254740991 Nanosecond\<rparr>
      = Some (Finite 9007199254740990951424)"
    by (simp only: payload_timespan_object double_table.simps fl_eval_nanosecond)
  show "payload \<lparr>inner = timespan_object (2 ^ 1010) Nanosecond\<rparr> = Some PosInfinity"
    by (simp only: payload_timespan_object double_table.simps fl_eval_overflow)
  have "Math_round (Finite 1180591620717411328) = Finite 1180591620717411328"
    by simp
  then show "payload \<lparr>inner = timespan_object (2 ^ 70) Second\<rparr>
      = Some (Finite 1180591620717411328)"
    by (simp only: payload_timespan_object double_table.simps fl_eval_second)
  show "conversion_table Nanosecond 9007199254740991 = 9007199254740991000000"
    by simp
  show "conversion_table Second (2 ^ 70) = 1180591620717411303"
    by (simp add: round_def)
qed

text \<open>
  Claim C5, amended. For every valid stored record, with unit \<open>u\<close> and \<open>ms\<close> milliseconds,
  \<^verbatim>\<open>payload()\<close> returns the value of the table computed in binary64: \<open>ms\<close> times 1000000
  for Nanosecond and times 1000 for Microsecond, rounded to the nearest double (an
  infinity on overflow); \<open>ms\<close> itself for Millisecond; and \<^verbatim>\<open>Math.round\<close> of \<open>ms\<close> divided by
  1000 for Second, then by 60 for Minute, by 60 again for Hour and by 24 for Day, each
  quotient rounded to the nearest double. This is the exact value of the table
  (the product, or the quotient by 1000, 60000, 3600000 and 86400000 rounded to the
  nearest integer) for Nanosecond and Microsecond whenever the exact product is a
  double, and for Second, Minute, Hour and Day whenever \<open>ms\<close> is a whole number below
  \<open>2\<^sup>5\<^sup>2\<close>; 61500 with the unit Second gives 62. \<^verbatim>\<open>Math.round\<close> is at most one half away
  from its argument.
\<close>

theorem payload_conversion_table:
  assumes "validate v = Inr True"
  shows "(\<exists>u ms. js_get v ''timeUnit'' = Inr (JString (TimeUnit_value u))
            \<and> js_get v ''timespan'' = Inr (JNumber ms) \<and> 0 \<le> ms)
      \<and> (\<forall>u ms. js_get v ''timeUnit'' = Inr (JString (TimeUnit_value u))
            \<and> js_get v ''timespan'' = Inr (JNumber ms) \<longrightarrow>
            new_TimespanMetric v = Inr \<lparr>inner = v\<rparr>
            \<and> payload \<lparr>inner = v\<rparr> = Some (double_table u ms)
            \<and> (u = Millisecond \<longrightarrow> payload \<lparr>inner = v\<rparr> = Some (Finite ms))
            \<and> ((u = Nanosecond \<or> u = Microsecond) \<and> is_double (conversion_table u ms) \<longrightarrow>
                 payload \<lparr>inner = v\<rparr> = Some (Finite (conversion_table u ms)))
            \<and> ((u = Second \<or> u = Minute \<or> u = Hour \<or> u = Day)
                 \<and> (\<exists>n::int. ms = of_int n \<and> n < 2 ^ 52) \<longrightarrow>
                 payload \<lparr>inner = v\<rparr> = Some (Finite (conversion_table u ms))))
      \<and> (\<forall>x. Math_round (Finite x) = Finite (of_int (round x))
            \<and> \<bar>of_int (round x) - x\<bar> \<le> 1 / 2)"
proof (intro conjI allI impI)
  have valid: "valid_DurationRecord v"
    using assms by (simp add: validate_valid)
  show "\<exists>u ms. js_get v ''timeUnit'' = Inr (JString (TimeUnit_value u))
            \<and> js_get v ''timespan'' = Inr (JNumber ms) \<and> 0 \<le> ms"
    using valid by (rule valid_DurationRecord_fields)
  show "new_TimespanMetric v = Inr \<lparr>inner = v\<rparr>" for u :: TimeUnit and ms :: real
    using valid by (simp add: new_TimespanMetric_eq)
  fix u ms
  assume f: "js_get v ''timeUnit'' = Inr (JString (TimeUnit_value u))
            \<and> js_get v ''timespan'' = Inr (JNumber ms)"
  then show p: "payload \<lparr>inner = v\<rparr> = Some (double_table u ms)"
    by (simp add: payload_fields)
  show "payload \<lparr>inner = v\<rparr> = Some (Finite ms)" if "u = Millisecond"
    using p that by simp
  show "payload \<lparr>inner = v\<rparr> = Some (Finite (conversion_table u ms))"
    if "(u = Nanosecond \<or> u = Microsecond) \<and> is_double (conversion_table u ms)"
    using p that by (simp only: double_table_times)
  show "payload \<lparr>inner = v\<rparr> = Some (Finite (conversion_table u ms))"
    if h: "(u = Second \<or> u = Minute \<or> u = Hour \<or> u = Day)
         \<and> (\<exists>n::int. ms = of_int n \<and> n < 2 ^ 52)"
  proof -
    from h obtain n :: int where n: "ms = of_int n" "n < 2 ^ 52" by blast
    from valid obtain fs s m where "v = JObject fs" "map_of fs ''timespan'' = Some (JNumber m)"
        "0 \<le> m"
      using valid_DurationRecord_iff [of v] by blast
    with f have "0 \<le> ms" by simp
    then have "0 \<le> n" using n(1) by simp
    with h n show ?thesis using p by (simp only: double_table_whole)
  qed
next
  fix x :: real
  show "Math_round (Finite x) = Finite (of_int (round x))"
    by (simp add: round_def)
  show "\<bar>of_int (round x) - x\<bar> \<le> 1 / 2"
    by (rule of_int_round_abs_le)
qed

text \<open>
  61500 milliseconds in seconds, 90000 milliseconds in minutes and 3 milliseconds in
  nanoseconds.
\<close>

theorem payload_conversion_table_witness:
  "payload \<lparr>inner = JObject [(''timeUnit'', JString ''second''), (''timespan'', JNumber 61500)]\<rparr>
     = Some (Finite 62)
   \<and> payload \<lparr>inner = JObject [(''timeUnit'', JString ''minute''), (''timespan'', JNumber 90000)]\<rparr>
     = Some (Finite 2)
   \<and> payload \<lparr>inner = JObject [(''timeUnit'', JString ''nanosecond''), (''timespan'', JNumber 3)]\<rparr>
     = Some (Finite 3000000)"
proof -
  let ?a = "JObject [(''timeUnit'', JString ''second''), (''timespan'', JNumber 61500)]"
  let ?b = "JObject [(''timeUnit'', JString ''minute''), (''timespan'', JNumber 90000)]"
  let ?c = "JObject [(''timeUnit'', JString ''nanosecond''), (''timespan'', JNumber 3)]"
  have a: "validate ?a = Inr True" and b: "validate ?b = Inr True"
    and c: "validate ?c = Inr True"
    by (simp_all add: validate_valid TimeUnit_strings_def)
  have fa: "js_get ?a ''timeUnit'' = Inr (JString (TimeUnit_value Second))
      \<and> js_get ?a ''timespan'' = Inr (JNumber 61500)"
    and fb: "js_get ?b ''timeUnit'' = Inr (JString (TimeUnit_value Minute))
      \<and> js_get ?b ''timespan'' = Inr (JNumber 90000)"
    and fc: "js_get ?c ''timeUnit'' = Inr (JString (TimeUnit_value Nanosecond))
      \<and> js_get ?c ''timespan'' = Inr (JNumber 3)"
    by simp_all
  have wa: "(Second = Second \<or> Second = Minute \<or> Second = Hour \<or> Second = Day)
      \<and> (\<exists>n::int. (61500::real) = of_int n \<and> n < 2 ^ 52)"
    by (intro conjI exI [of _ 61500]) simp_all
  have wb: "(Minute = Second \<or> Minute = Minute \<or> Minute = Hour \<or> Minute = Day)
      \<and> (\<exists>n::int. (90000::real) = of_int n \<and> n < 2 ^ 52)"
    by (intro conjI exI [of _ 90000]) simp_all
  have "is_double (of_int 3000000)" by (rule is_double_of_int) simp
  then have wc: "(Nanosecond = Nanosecond \<or> Nanosecond = Microsecond)
      \<and> is_double (conversion_table Nanosecond 3)"
    by simp
  note ta = payload_conversion_table [OF a, THEN conjunct2, THEN conjunct1, rule_format,
      OF fa]
  note tb = payload_conversion_table [OF b, THEN conjunct2, THEN conjunct1, rule_format,
      OF fb]
  note tc = payload_conversion_table [OF c, THEN conjunct2, THEN conjunct1, rule_format,
      OF fc]
  have "payload \<lparr>inner = ?a\<rparr> = Some (Finite (conversion_table Second 61500))"
    by (rule ta [THEN conjunct2, THEN conjunct2, THEN conjunct2, THEN conjunct2, rule_format,
          OF wa])
  moreover have "payload \<lparr>inner = ?b\<rparr> = Some (Finite (conversion_table Minute 90000))"
    by (rule tb [THEN conjunct2, THEN conjunct2, THEN conjunct2, THEN conjunct2, rule_format,
          OF wb])
  moreover have "payload \<lparr>inner = ?c\<rparr> = Some (Finite (conversion_table Nanosecond 3))"
    by (rule tc [THEN conjunct2, THEN conjunct2, THEN conjunct2, THEN conjunct1, rule_format,
          OF wc])
  ultimately show ?thesis by (simp add: round_def)
qed

subsection \<open>C6: a negative elapsed time\<close>

text \<open>
  A \<^verbatim>\<open>stop()\<close> whose stop time 5 is earlier than the recorded start time 10 reports
  nothing when recording is disabled: the task resets \<^verbatim>\<open>startTime\<close> and returns before
  it computes the elapsed time; the console stays empty.
\<close>

theorem negative_guard_counterexample:
  "stop 5 (set_startTime (Some 10) (fresh\<lparr>uploadEnabled := False\<rparr>))
     = Inr (fresh\<lparr>uploadEnabled := False\<rparr>)
   \<and> console (fresh\<lparr>uploadEnabled := False\<rparr>) = []"
  by (simp add: stop_def shouldRecord_def set_startTime_def fresh_def)

text \<open>
  Claim C6, amended. For every \<^verbatim>\<open>stop()\<close> whose captured stop time is earlier than the
  recorded start time, the task writes no record (every stored value stays as it is)
  and clears \<^verbatim>\<open>startTime\<close>; when recording is enabled it reports ``Timespan was
  negative.'' and changes nothing else, and when recording is disabled it reports
  nothing.
\<close>

theorem negative_guard:
  assumes "startTime (metric w) = Some s" and "t < s"
  shows "\<exists>w'. stop t w = Inr w'
      \<and> metricsDatabase w' = metricsDatabase w
      \<and> startTime (metric w') = None
      \<and> (shouldRecord (metric w) (uploadEnabled w) \<longrightarrow>
           w' = w\<lparr>metric := (metric w)\<lparr>startTime := None\<rparr>,
                  console := console w @ [''Timespan was negative.'']\<rparr>)
      \<and> (\<not> shouldRecord (metric w) (uploadEnabled w) \<longrightarrow>
           w' = w\<lparr>metric := (metric w)\<lparr>startTime := None\<rparr>\<rparr>)"
proof (cases "shouldRecord (metric w) (uploadEnabled w)")
  case True
  then show ?thesis
    using assms by (simp add: stop_negative console_error_def set_startTime_def)
next
  case False
  then show ?thesis
    by (simp add: stop_disabled set_startTime_def)
qed

text \<open>A recording metric started at 10 and stopped at 5.\<close>

theorem negative_guard_witness:
  "\<exists>w'. stop 5 (set_startTime (Some 10) fresh) = Inr w'
      \<and> console w' = [''Timespan was negative.'']
      \<and> metricsDatabase w' = Map.empty
      \<and> startTime (metric w') = None"
proof -
  let ?w = "set_startTime (Some 10) fresh"
  have h: "startTime (metric ?w) = Some 10" "(5::real) < 10"
    by (simp_all add: set_startTime_def)
  have e: "shouldRecord (metric ?w) (uploadEnabled ?w)"
    by (simp add: shouldRecord_def set_startTime_def fresh_def)
  from negative_guard [OF h] obtain w' where w': "stop 5 ?w = Inr w'"
      "metricsDatabase w' = metricsDatabase ?w" "startTime (metric w') = None"
      "shouldRecord (metric ?w) (uploadEnabled ?w) \<longrightarrow>
         w' = ?w\<lparr>metric := (metric ?w)\<lparr>startTime := None\<rparr>,
                  console := console ?w @ [''Timespan was negative.'']\<rparr>"
    by (elim exE conjE)
  from w'(4) e have "console w' = console ?w @ [''Timespan was negative.'']"
    by simp
  moreover have "console ?w = []" "metricsDatabase ?w = Map.empty"
    by (simp_all add: set_startTime_def fresh_def)
  ultimately show ?thesis using w'(1-3) by simp
qed

subsection \<open>C7: start while running\<close>

text \<open>
  A \<^verbatim>\<open>start()\<close> on a running metric reports nothing when recording is disabled: the task
  returns at its first test and the console stays empty.
\<close>

theorem preserve_first_start_counterexample:
  "start 20 (set_startTime (Some 10) (fresh\<lparr>uploadEnabled := False\<rparr>))
     = set_startTime (Some 10) (fresh\<lparr>uploadEnabled := False\<rparr>)
   \<and> console (set_startTime (Some 10) (fresh\<lparr>uploadEnabled := False\<rparr>)) = []"
  by (simp add: start_def shouldRecord_def set_startTime_def fresh_def)

text \<open>
  Claim C7, amended. For every \<^verbatim>\<open>start()\<close> executed while the metric is already running,
  the task leaves the original \<^verbatim>\<open>startTime\<close> untouched, discards the new time stamp and
  changes no other state; when recording is enabled it reports ``Timespan already
  started.'', and when recording is disabled it reports nothing.
\<close>

theorem preserve_first_start:
  assumes "startTime (metric w) = Some s"
  shows "start t w =
       (if shouldRecord (metric w) (uploadEnabled w)
        then w\<lparr>console := console w @ [''Timespan already started.'']\<rparr> else w)
     \<and> startTime (metric (start t w)) = Some s
     \<and> metric (start t w) = metric w
     \<and> uploadEnabled (start t w) = uploadEnabled w
     \<and> metricsDatabase (start t w) = metricsDatabase w"
  using assms by (simp add: start_def isUndefined_def console_error_def)

text \<open>A recording metric started at 10 and started again at 20.\<close>

theorem preserve_first_start_witness:
  "start 20 (set_startTime (Some 10) fresh)
     = (set_startTime (Some 10) fresh)\<lparr>console := [''Timespan already started.'']\<rparr>
   \<and> startTime (metric (start 20 (set_startTime (Some 10) fresh))) = Some 10"
proof -
  let ?w = "set_startTime (Some 10) fresh"
  have h: "startTime (metric ?w) = Some 10"
    by (simp add: set_startTime_def)
  have "shouldRecord (metric ?w) (uploadEnabled ?w)" "console ?w = []"
    by (simp_all add: shouldRecord_def set_startTime_def fresh_def)
  with preserve_first_start [OF h, of 20] h show ?thesis by simp
qed

subsection \<open>C8: stop while recording is disabled\<close>

text \<open>
  Claim C8. For every \<^verbatim>\<open>stop()\<close> executed while recording is disabled, the task clears
  \<^verbatim>\<open>startTime\<close>, writes no record and reports nothing, whether the metric was running or
  idle: the state after the task is the state before it with \<^verbatim>\<open>startTime\<close> absent.
\<close>

theorem disabled_stop_resets:
  assumes "\<not> shouldRecord (metric w) (uploadEnabled w)"
  shows "stop t w = Inr (w\<lparr>metric := (metric w)\<lparr>startTime := None\<rparr>\<rparr>)
     \<and> (\<forall>w'. stop t w = Inr w' \<longrightarrow>
           startTime (metric w') = None \<and> metricsDatabase w' = metricsDatabase w
           \<and> console w' = console w \<and> uploadEnabled w' = uploadEnabled w)"
  using assms by (auto simp: stop_disabled set_startTime_def)

text \<open>With collection disabled, a running metric and an idle one, each stopped at 30.\<close>

theorem disabled_stop_resets_witness:
  "stop 30 (set_startTime (Some 10) (fresh\<lparr>uploadEnabled := False\<rparr>))
     = Inr (fresh\<lparr>uploadEnabled := False\<rparr>)
   \<and> stop 30 (fresh\<lparr>uploadEnabled := False\<rparr>) = Inr (fresh\<lparr>uploadEnabled := False\<rparr>)"
proof -
  let ?r = "set_startTime (Some 10) (fresh\<lparr>uploadEnabled := False\<rparr>)"
  let ?i = "fresh\<lparr>uploadEnabled := False\<rparr>"
  have r: "\<not> shouldRecord (metric ?r) (uploadEnabled ?r)"
    and i: "\<not> shouldRecord (metric ?i) (uploadEnabled ?i)"
    by (simp_all add: shouldRecord_def set_startTime_def)
  from disabled_stop_resets [OF r, of 30] disabled_stop_resets [OF i, of 30]
  show ?thesis by (simp add: set_startTime_def fresh_def)
qed

subsection \<open>C9: reading back\<close>

text \<open>
  Claim C9. \<^verbatim>\<open>testGetValue\<close> never changes \<^verbatim>\<open>startTime\<close> or the stored record (it leaves the
  whole state as it is). For the ping it is given, or without an argument for the first
  ping of the metric, it returns the converted payload, a number, when a valid record is
  stored under that ping, and \<^verbatim>\<open>undefined\<close> when nothing is stored there (or the metric
  has no ping). Reading twice gives the same result, also with a \<^verbatim>\<open>start()\<close> or a
  \<^verbatim>\<open>cancel()\<close> in between.
\<close>

theorem testGetValue_read_only:
  "snd (testGetValue ping w) = w
   \<and> (ping = Some p \<or> ping = None \<and> (\<exists>ps. sendInPings (metric w) = p # ps) \<longrightarrow>
        (metricsDatabase w p = Some v \<and> validate v = Inr True \<longrightarrow>
           testGetValue ping w = (Inr (payload \<lparr>inner = v\<rparr>), w)
           \<and> (\<exists>n. payload \<lparr>inner = v\<rparr> = Some n))
        \<and> (metricsDatabase w p = None \<longrightarrow> testGetValue ping w = (Inr None, w)))
   \<and> (ping = None \<and> sendInPings (metric w) = [] \<longrightarrow> testGetValue ping w = (Inr None, w))
   \<and> testGetValue ping (snd (testGetValue ping w)) = testGetValue ping w
   \<and> fst (testGetValue ping (start t w)) = fst (testGetValue ping w)
   \<and> fst (testGetValue ping (cancel w)) = fst (testGetValue ping w)"
proof (intro conjI impI)
  show "snd (testGetValue ping w) = w" by (rule testGetValue_snd)
  then show "testGetValue ping (snd (testGetValue ping w)) = testGetValue ping w" by simp
  show "fst (testGetValue ping (start t w)) = fst (testGetValue ping w)"
    by (rule testGetValue_reads) (simp_all add: start_keeps)
  show "fst (testGetValue ping (cancel w)) = fst (testGetValue ping w)"
    by (rule testGetValue_reads) (simp_all add: cancel_keeps)
next
  assume "ping = None \<and> sendInPings (metric w) = []"
  then show "testGetValue ping w = (Inr None, w)"
    by (simp add: testGetValue_no_ping)
next
  assume "ping = Some p \<or> ping = None \<and> (\<exists>ps. sendInPings (metric w) = p # ps)"
  then have e: "testGetValue ping w = testGetValue (Some p) w"
    by (auto simp: testGetValue_default)
  {
    assume a: "metricsDatabase w p = Some v \<and> validate v = Inr True"
    then have v: "valid_DurationRecord v" by (simp add: validate_True_iff)
    from a v show "testGetValue ping w = (Inr (payload \<lparr>inner = v\<rparr>), w)"
      unfolding e by (simp add: testGetValue_valid)
    from valid_DurationRecord_fields [OF v] obtain u ms where
      "js_get v ''timeUnit'' = Inr (JString (TimeUnit_value u))"
      "js_get v ''timespan'' = Inr (JNumber ms)"
      by (elim exE conjE)
    then have "payload \<lparr>inner = v\<rparr> = Some (double_table u ms)"
      by (rule payload_fields)
    then show "\<exists>n. payload \<lparr>inner = v\<rparr> = Some n" by simp
  }
  {
    assume "metricsDatabase w p = None"
    then show "testGetValue ping w = (Inr None, w)"
      unfolding e by (rule testGetValue_absent)
  }
qed

text \<open>
  Reading a stored record of 61500 milliseconds in seconds, and reading when nothing is
  stored, each with the ping named and with the default ping.
\<close>

theorem testGetValue_read_only_witness:
  "testGetValue (Some ''metrics'')
       (fresh\<lparr>metricsDatabase := [''metrics'' \<mapsto> timespan_object 61500 Second]\<rparr>)
     = (Inr (Some (Finite 62)),
        fresh\<lparr>metricsDatabase := [''metrics'' \<mapsto> timespan_object 61500 Second]\<rparr>)
   \<and> testGetValue None
       (fresh\<lparr>metricsDatabase := [''metrics'' \<mapsto> timespan_object 61500 Second]\<rparr>)
     = (Inr (Some (Finite 62)),
        fresh\<lparr>metricsDatabase := [''metrics'' \<mapsto> timespan_object 61500 Second]\<rparr>)
   \<and> testGetValue (Some ''metrics'') fresh = (Inr None, fresh)
   \<and> testGetValue None fresh = (Inr None, fresh)"
proof -
  let ?r = "timespan_object 61500 Second"
  let ?w = "fresh\<lparr>metricsDatabase := [''metrics'' \<mapsto> ?r]\<rparr>"
  have a: "metricsDatabase ?w ''metrics'' = Some ?r \<and> validate ?r = Inr True"
    by (simp add: validate_valid valid_timespan_object)
  have b: "metricsDatabase fresh ''metrics'' = None"
    by (simp add: fresh_def)
  have s: "Some ''metrics'' = Some ''metrics''
      \<or> Some ''metrics'' = None \<and> (\<exists>ps. sendInPings (metric ?w) = ''metrics'' # ps)"
    by simp
  have sf: "Some ''metrics'' = Some ''metrics''
      \<or> Some ''metrics'' = None \<and> (\<exists>ps. sendInPings (metric fresh) = ''metrics'' # ps)"
    by simp
  have d: "None = Some ''metrics''
      \<or> (None :: string option) = None \<and> (\<exists>ps. sendInPings (metric ?w) = ''metrics'' # ps)"
    by (simp add: fresh_def)
  have df: "None = Some ''metrics''
      \<or> (None :: string option) = None
        \<and> (\<exists>ps. sendInPings (metric fresh) = ''metrics'' # ps)"
    by (simp add: fresh_def)
  have "(0::int) \<le> 61500" "(61500::int) < 2 ^ 52" by simp_all
  then have "double_table Second (of_int 61500) = Finite (conversion_table Second (of_int 61500))"
    by (intro double_table_whole) simp_all
  then have p: "payload \<lparr>inner = ?r\<rparr> = Some (Finite 62)"
    by (simp add: payload_timespan_object round_def)
  have "testGetValue (Some ''metrics'') ?w = (Inr (payload \<lparr>inner = ?r\<rparr>), ?w)"
    using testGetValue_read_only [of "Some ''metrics''" ?w "''metrics''" ?r, THEN conjunct2,
        THEN conjunct1, rule_format, OF s, THEN conjunct1, rule_format, OF a]
    by (rule conjunct1)
  moreover have "testGetValue None ?w = (Inr (payload \<lparr>inner = ?r\<rparr>), ?w)"
    using testGetValue_read_only [of None ?w "''metrics''" ?r, THEN conjunct2,
        THEN conjunct1, rule_format, OF d, THEN conjunct1, rule_format, OF a]
    by (rule conjunct1)
  moreover have "testGetValue (Some ''metrics'') fresh = (Inr None, fresh)"
    by (rule testGetValue_read_only [of "Some ''metrics''" fresh "''metrics''", THEN conjunct2,
          THEN conjunct1, rule_format, OF sf, THEN conjunct2, rule_format, OF b])
  moreover have "testGetValue None fresh = (Inr None, fresh)"
    by (rule testGetValue_read_only [of None fresh "''metrics''", THEN conjunct2,
          THEN conjunct1, rule_format, OF df, THEN conjunct2, rule_format, OF b])
  ultimately show ?thesis by (simp only: p)
qed

subsection \<open>C10: start while recording is disabled\<close>

text \<open>
  A disabled \<^verbatim>\<open>stop()\<close> is not the only call that clears a \<^verbatim>\<open>startTime\<close> left from before
  collection was disabled: after \<^verbatim>\<open>start()\<close> at 10, disabling collection and \<^verbatim>\<open>start()\<close>
  at 20 the metric is running since 10, and a \<^verbatim>\<open>cancel()\<close> leaves it idle.
\<close>

theorem disabled_start_keeps_startTime_counterexample:
  "run [Start 10, SetUploadEnabled False, Start 20] fresh
     = Inr (set_startTime (Some 10) (fresh\<lparr>uploadEnabled := False\<rparr>))
   \<and> run [Start 10, SetUploadEnabled False, Start 20, Cancel] fresh
     = Inr (fresh\<lparr>uploadEnabled := False\<rparr>)
   \<and> startTime (metric (fresh\<lparr>uploadEnabled := False\<rparr>)) = None"
  by (simp add: fresh_def start_def cancel_def shouldRecord_def isUndefined_def
      set_startTime_def)

text \<open>
  Claim C10, amended. When recording is disabled the task of \<^verbatim>\<open>start()\<close> returns without
  touching any state, so it does not clear a \<^verbatim>\<open>startTime\<close> left from before; a \<^verbatim>\<open>stop()\<close>,
  also a disabled one, clears it, and so does a \<^verbatim>\<open>cancel()\<close>, which has no test for
  recording. After \<^verbatim>\<open>start()\<close> at \<open>t1\<close> on an idle recording metric, disabling collection
  and \<^verbatim>\<open>start()\<close> at \<open>t2\<close>, the metric is running with start time \<open>t1\<close>; a \<^verbatim>\<open>stop()\<close> or a
  \<^verbatim>\<open>cancel()\<close> after that leaves it idle.
\<close>

theorem disabled_start_keeps_startTime:
  "(\<not> shouldRecord (metric w) (uploadEnabled w) \<longrightarrow>
      start t w = w
      \<and> stop t w = Inr (w\<lparr>metric := (metric w)\<lparr>startTime := None\<rparr>\<rparr>))
   \<and> cancel w = w\<lparr>metric := (metric w)\<lparr>startTime := None\<rparr>\<rparr>
   \<and> (shouldRecord (metric w) (uploadEnabled w) \<and> startTime (metric w) = None \<longrightarrow>
        run [Start t1, SetUploadEnabled False, Start t2] w
          = Inr (w\<lparr>metric := (metric w)\<lparr>startTime := Some t1\<rparr>, uploadEnabled := False\<rparr>)
        \<and> run [Start t1, SetUploadEnabled False, Start t2, Stop t3] w
          = Inr (w\<lparr>metric := (metric w)\<lparr>startTime := None\<rparr>, uploadEnabled := False\<rparr>)
        \<and> run [Start t1, SetUploadEnabled False, Start t2, Cancel] w
          = Inr (w\<lparr>metric := (metric w)\<lparr>startTime := None\<rparr>, uploadEnabled := False\<rparr>))"
  by (simp add: start_def stop_def cancel_def shouldRecord_def isUndefined_def
      set_startTime_def)

text \<open>
  A disabled \<^verbatim>\<open>start()\<close> and a disabled \<^verbatim>\<open>stop()\<close> at 20 on a metric started at 10, and
  the three sequences from the fresh metric.
\<close>

theorem disabled_start_keeps_startTime_witness:
  "start 20 (set_startTime (Some 10) (fresh\<lparr>uploadEnabled := False\<rparr>))
     = set_startTime (Some 10) (fresh\<lparr>uploadEnabled := False\<rparr>)
   \<and> stop 20 (set_startTime (Some 10) (fresh\<lparr>uploadEnabled := False\<rparr>))
     = Inr (fresh\<lparr>uploadEnabled := False\<rparr>)
   \<and> run [Start 10, SetUploadEnabled False, Start 20] fresh
     = Inr (set_startTime (Some 10) (fresh\<lparr>uploadEnabled := False\<rparr>))
   \<and> run [Start 10, SetUploadEnabled False, Start 20, Stop 30] fresh
     = Inr (fresh\<lparr>uploadEnabled := False\<rparr>)
   \<and> run [Start 10, SetUploadEnabled False, Start 20, Cancel] fresh
     = Inr (fresh\<lparr>uploadEnabled := False\<rparr>)"
proof -
  let ?d = "set_startTime (Some 10) (fresh\<lparr>uploadEnabled := False\<rparr>)"
  have d: "\<not> shouldRecord (metric ?d) (uploadEnabled ?d)"
    by (simp add: shouldRecord_def set_startTime_def)
  have f: "shouldRecord (metric fresh) (uploadEnabled fresh) \<and> startTime (metric fresh) = None"
    by (simp add: shouldRecord_def fresh_def)
  have s: "start 20 ?d = ?d \<and> stop 20 ?d = Inr (?d\<lparr>metric := (metric ?d)\<lparr>startTime := None\<rparr>\<rparr>)"
    by (rule disabled_start_keeps_startTime [of ?d 20, THEN conjunct1, rule_format, OF d])
  have r: "run [Start 10, SetUploadEnabled False, Start 20] fresh
          = Inr (fresh\<lparr>metric := (metric fresh)\<lparr>startTime := Some 10\<rparr>, uploadEnabled := False\<rparr>)
        \<and> run [Start 10, SetUploadEnabled False, Start 20, Stop 30] fresh
          = Inr (fresh\<lparr>metric := (metric fresh)\<lparr>startTime := None\<rparr>, uploadEnabled := False\<rparr>)
        \<and> run [Start 10, SetUploadEnabled False, Start 20, Cancel] fresh
          = Inr (fresh\<lparr>metric := (metric fresh)\<lparr>startTime := None\<rparr>, uploadEnabled := False\<rparr>)"
    by (rule disabled_start_keeps_startTime [of fresh _ 10 20 30, THEN conjunct2,
          THEN conjunct2, rule_format, OF f])
  have e0: "?d\<lparr>metric := (metric ?d)\<lparr>startTime := None\<rparr>\<rparr> = fresh\<lparr>uploadEnabled := False\<rparr>"
    by (simp add: set_startTime_def fresh_def)
  have e1: "fresh\<lparr>metric := (metric fresh)\<lparr>startTime := Some 10\<rparr>, uploadEnabled := False\<rparr> = ?d"
    by (simp add: set_startTime_def fresh_def)
  have e2: "fresh\<lparr>metric := (metric fresh)\<lparr>startTime := None\<rparr>, uploadEnabled := False\<rparr>
      = fresh\<lparr>uploadEnabled := False\<rparr>"
    by (simp add: fresh_def)
  from s have s': "start 20 ?d = ?d \<and> stop 20 ?d = Inr (fresh\<lparr>uploadEnabled := False\<rparr>)"
    unfolding e0 .
  from r have "run [Start 10, SetUploadEnabled False, Start 20] fresh = Inr ?d
      \<and> run [Start 10, SetUploadEnabled False, Start 20, Stop 30] fresh
          = Inr (fresh\<lparr>uploadEnabled := False\<rparr>)
      \<and> run [Start 10, SetUploadEnabled False, Start 20, Cancel] fresh
          = Inr (fresh\<lparr>uploadEnabled := False\<rparr>)"
    unfolding e1 e2 .
  with s' show ?thesis by (intro conjI) (elim conjE, assumption)+
qed

end
